theory Spec2Isabelle
  imports Main "HOL-Library.Sublist"
begin

section \<open>Python strings\<close>

text \<open>
  File names, paths and messages are Python \<open>str\<close> values, modelled as \<open>string\<close>.
  The functions below are the \<open>str\<close> methods the two front-ends call.
\<close>

definition lower_char :: "char \<Rightarrow> char" where
  "lower_char c =
     (case map_of (zip ''ABCDEFGHIJKLMNOPQRSTUVWXYZ'' ''abcdefghijklmnopqrstuvwxyz'') c of
        Some d \<Rightarrow> d
      | None \<Rightarrow> c)"

text \<open>
  \<open>s.lower()\<close> on the letters A to Z; every other character is kept. Python lowers
  letters of other alphabets too, and none of them becomes a letter of the extensions
  compared below.
\<close>

definition lower :: "string \<Rightarrow> string" where
  "lower s = map lower_char s"

text \<open>\<open>s.startswith(p)\<close> and \<open>s.endswith(p)\<close>.\<close>

definition startswith :: "string \<Rightarrow> string \<Rightarrow> bool" where
  "startswith s p = (take (length p) s = p)"

definition endswith :: "string \<Rightarrow> string \<Rightarrow> bool" where
  "endswith s p = (length p \<le> length s \<and> drop (length s - length p) s = p)"

text \<open>\<open>s.rfind(c)\<close>: the index of the last occurrence of \<open>c\<close>, or \<open>-1\<close>.\<close>

fun rfind :: "string \<Rightarrow> char \<Rightarrow> int" where
  "rfind [] c = -1"
| "rfind (x # xs) c =
     (let r = rfind xs c in if 0 \<le> r then r + 1 else if x = c then 0 else -1)"

text \<open>\<open>s.split('/')\<close>: always at least one component.\<close>

fun split_sep :: "string \<Rightarrow> string list" where
  "split_sep [] = [[]]"
| "split_sep (c # cs) =
     (if c = CHR ''/'' then [] # split_sep cs
      else (case split_sep cs of
              [] \<Rightarrow> [[c]]
            | x # xs \<Rightarrow> (c # x) # xs))"

text \<open>\<open>sep.join(xs)\<close>.\<close>

fun str_join :: "string \<Rightarrow> string list \<Rightarrow> string" where
  "str_join sep [] = []"
| "str_join sep [x] = x"
| "str_join sep (x # y # ys) = x @ sep @ str_join sep (y # ys)"

text \<open>\<open>s.strip()\<close>: ASCII white space is removed at both ends.\<close>

definition is_space :: "char \<Rightarrow> bool" where
  "is_space c = (c \<in> set [CHR 0x09, CHR 0x0A, CHR 0x0B, CHR 0x0C, CHR 0x0D,
                           CHR 0x1C, CHR 0x1D, CHR 0x1E, CHR 0x1F, CHR 0x20])"

definition strip :: "string \<Rightarrow> string" where
  "strip s = rev (dropWhile is_space (rev (dropWhile is_space s)))"

text \<open>\<open>str(n)\<close> for an integer: decimal digits, with a minus sign below zero.\<close>

definition digit_char :: "nat \<Rightarrow> char" where
  "digit_char d = ''0123456789'' ! d"

fun str_nat :: "nat \<Rightarrow> string" where
  "str_nat n = (if n < 10 then [digit_char n] else str_nat (n div 10) @ [digit_char (n mod 10)])"

definition str_int :: "int \<Rightarrow> string" where
  "str_int i = (if i < 0 then CHR ''-'' # str_nat (nat (- i)) else str_nat (nat i))"

section \<open>The directory tree\<close>

text \<open>
  What a recursive scan of a folder sees: regular files and directories, each directory
  with its entries in the order the operating system lists them.
\<close>

datatype entry = File string | Dir string "entry list"

text \<open>
  The regular files of a tree, each as the names of the directories leading to it and its
  own name: the files of a directory first, then those of each subdirectory in turn.
\<close>

fun filenames :: "entry list \<Rightarrow> string list" where
  "filenames [] = []"
| "filenames (File n # es) = n # filenames es"
| "filenames (Dir n sub # es) = filenames es"

fun dirnames :: "entry list \<Rightarrow> string list" where
  "dirnames [] = []"
| "dirnames (File n # es) = dirnames es"
| "dirnames (Dir n sub # es) = n # dirnames es"

fun sub_files :: "string list \<Rightarrow> entry list \<Rightarrow> (string list \<times> string) list" where
  "sub_files ds [] = []"
| "sub_files ds (File n # es) = sub_files ds es"
| "sub_files ds (Dir n sub # es) =
     (map (\<lambda>f. (ds @ [n], f)) (filenames sub) @ sub_files (ds @ [n]) sub) @ sub_files ds es"

definition tree_files :: "entry list \<Rightarrow> (string list \<times> string) list" where
  "tree_files es = map (\<lambda>f. ([], f)) (filenames es) @ sub_files [] es"

text \<open>
  A name the file system can hold: not empty, without a slash, and neither of the two
  reserved names.
\<close>

definition entry_name :: "string \<Rightarrow> bool" where
  "entry_name n = (n \<noteq> [] \<and> CHR ''/'' \<notin> set n \<and> n \<noteq> ''.'' \<and> n \<noteq> ''..'')"

fun wf_entries :: "entry list \<Rightarrow> bool" where
  "wf_entries [] = True"
| "wf_entries (File n # es) = (entry_name n \<and> wf_entries es)"
| "wf_entries (Dir n sub # es) = (entry_name n \<and> wf_entries sub \<and> wf_entries es)"

section \<open>Paths\<close>

subsection \<open>\<open>pathlib\<close> paths\<close>

text \<open>
  A \<open>Path\<close> of the POSIX flavour: a root (empty, one slash or two) and the parts after
  it. \<open>path_of\<close> is the constructor \<open>Path(s)\<close>, \<open>child\<close> the operator \<open>/\<close> with a single
  name on the right.
\<close>

datatype path = Path (root: string) (parts: "string list")

definition path_of :: "string \<Rightarrow> path" where
  "path_of s =
     Path (if startswith s ''/''
           then (if startswith s ''//'' \<and> \<not> startswith s ''///'' then ''//'' else ''/'')
           else [])
          (filter (\<lambda>c. c \<noteq> [] \<and> c \<noteq> ''.'') (split_sep s))"

definition path_str :: "path \<Rightarrow> string" where
  "path_str p = (if root p = [] \<and> parts p = [] then ''.'' else root p @ str_join ''/'' (parts p))"

definition child :: "path \<Rightarrow> string \<Rightarrow> path" where
  "child p n = Path (root p) (parts p @ [n])"

definition path_name :: "path \<Rightarrow> string" where
  "path_name p = (if parts p = [] then [] else last (parts p))"

text \<open>
  \<open>Path.suffix\<close>: the name from its last dot on, when that dot is neither the first nor
  the last character of the name; empty otherwise.
\<close>

definition path_suffix :: "path \<Rightarrow> string" where
  "path_suffix p =
     (let name = path_name p; i = rfind name CHR ''.''
      in if 0 < i \<and> i < int (length name) - 1 then drop (nat i) name else [])"

subsection \<open>\<open>os.path\<close> on POSIX\<close>

definition os_path_join :: "string \<Rightarrow> string \<Rightarrow> string" where
  "os_path_join a b =
     (if startswith b ''/'' then b
      else if a = [] \<or> endswith a ''/'' then a @ b
      else a @ ''/'' @ b)"

definition rstrip_sep :: "string \<Rightarrow> string" where
  "rstrip_sep s = rev (dropWhile (\<lambda>c. c = CHR ''/'') (rev s))"

definition os_path_dirname :: "string \<Rightarrow> string" where
  "os_path_dirname p =
     (let i = rfind p CHR ''/'' + 1; head = take (nat i) p
      in if head \<noteq> [] \<and> head \<noteq> replicate (length head) CHR ''/'' then rstrip_sep head
         else head)"

definition os_path_basename :: "string \<Rightarrow> string" where
  "os_path_basename p = drop (nat (rfind p CHR ''/'' + 1)) p"

text \<open>
  \<open>normpath\<close>: empty and \<open>.\<close> components go, \<open>..\<close> cancels the component before it
  (at the root it is dropped), one or two leading slashes are kept.
\<close>

definition norm_step :: "bool \<Rightarrow> string list \<Rightarrow> string \<Rightarrow> string list" where
  "norm_step initial new_comps cmp =
     (if cmp = [] \<or> cmp = ''.'' then new_comps
      else if cmp \<noteq> ''..'' \<or> (\<not> initial \<and> new_comps = [])
               \<or> (new_comps \<noteq> [] \<and> last new_comps = ''..'')
           then new_comps @ [cmp]
      else if new_comps \<noteq> [] then butlast new_comps
      else new_comps)"

definition initial_slashes :: "string \<Rightarrow> nat" where
  "initial_slashes path =
     (if startswith path ''/''
      then (if startswith path ''//'' \<and> \<not> startswith path ''///'' then 2 else 1)
      else 0)"

definition norm_comps :: "string \<Rightarrow> string list" where
  "norm_comps path = foldl (norm_step (initial_slashes path \<noteq> 0)) [] (split_sep path)"

definition os_path_normpath :: "string \<Rightarrow> string" where
  "os_path_normpath path =
     (if path = [] then ''.''
      else let p = replicate (initial_slashes path) CHR ''/'' @ str_join ''/'' (norm_comps path)
           in if p = [] then ''.'' else p)"

text \<open>\<open>abspath\<close> reads the working directory, here the parameter \<open>cwd\<close>.\<close>

definition os_path_abspath :: "string \<Rightarrow> string \<Rightarrow> string" where
  "os_path_abspath cwd path =
     os_path_normpath (if startswith path ''/'' then path else os_path_join cwd path)"

fun commonprefix :: "string list \<Rightarrow> string list \<Rightarrow> string list" where
  "commonprefix (x # xs) (y # ys) = (if x = y then x # commonprefix xs ys else [])"
| "commonprefix xs ys = []"

datatype exn =
  RuntimeError string
  | OSError string
  | ValueError string
  | AttributeError string

text \<open>The text \<open>str(e)\<close> of an exception.\<close>

fun exn_str :: "exn \<Rightarrow> string" where
  "exn_str (RuntimeError m) = m"
| "exn_str (OSError m) = m"
| "exn_str (ValueError m) = m"
| "exn_str (AttributeError m) = m"

definition os_path_relpath :: "string \<Rightarrow> string \<Rightarrow> string \<Rightarrow> exn + string" where
  "os_path_relpath cwd path start =
     (if path = [] then Inl (ValueError ''no path specified'')
      else
        let start_list = filter (\<lambda>x. x \<noteq> []) (split_sep (os_path_abspath cwd start));
            path_list = filter (\<lambda>x. x \<noteq> []) (split_sep (os_path_abspath cwd path));
            i = length (commonprefix start_list path_list);
            rel_list = replicate (length start_list - i) ''..'' @ drop i path_list
        in if rel_list = [] then Inr ''.''
           else Inr (foldl os_path_join (hd rel_list) (tl rel_list)))"

text \<open>
  \<open>os.walk(top)\<close>, top down: a directory's triple of path, subdirectory names and file
  names, then the walk of each subdirectory. A folder that cannot be listed yields
  nothing (\<open>os.walk\<close> swallows the error), which is the tree \<open>None\<close>.
\<close>

fun os_walk_sub :: "string \<Rightarrow> entry list \<Rightarrow> (string \<times> string list \<times> string list) list" where
  "os_walk_sub topdir [] = []"
| "os_walk_sub topdir (File n # es) = os_walk_sub topdir es"
| "os_walk_sub topdir (Dir n sub # es) =
     ((os_path_join topdir n, dirnames sub, filenames sub) # os_walk_sub (os_path_join topdir n) sub)
     @ os_walk_sub topdir es"

definition os_walk :: "string \<Rightarrow> entry list option \<Rightarrow> (string \<times> string list \<times> string list) list" where
  "os_walk topdir tree =
     (case tree of
        None \<Rightarrow> []
      | Some es \<Rightarrow> (topdir, dirnames es, filenames es) # os_walk_sub topdir es)"

section \<open>File discovery\<close>

subsection \<open>\<open>main.py\<close>: \<open>FileProcessor\<close>\<close>

definition VALID_EXTENSIONS :: "string set" where
  "VALID_EXTENSIONS = {''.pdf'', ''.docx'', ''.pptx'', ''.html'', ''.xlsx'', ''.md'', ''.txt''}"

definition is_valid_file :: "path \<Rightarrow> bool" where
  "is_valid_file file_path =
     (\<not> startswith (path_name file_path) ''.''
      \<and> lower (path_suffix file_path) \<in> VALID_EXTENSIONS)"

text \<open>
  \<open>directory.rglob('*')\<close>: every entry below the directory, each with the answer its
  \<open>is_file()\<close> gives. The entries of a directory come before those of its subdirectories.
\<close>

fun listing :: "path \<Rightarrow> entry list \<Rightarrow> (path \<times> bool) list" where
  "listing d [] = []"
| "listing d (File n # es) = (child d n, True) # listing d es"
| "listing d (Dir n sub # es) = (child d n, False) # listing d es"

fun rglob_sub :: "path \<Rightarrow> entry list \<Rightarrow> (path \<times> bool) list" where
  "rglob_sub d [] = []"
| "rglob_sub d (File n # es) = rglob_sub d es"
| "rglob_sub d (Dir n sub # es) =
     (listing (child d n) sub @ rglob_sub (child d n) sub) @ rglob_sub d es"

definition rglob :: "path \<Rightarrow> entry list \<Rightarrow> (path \<times> bool) list" where
  "rglob d es = listing d es @ rglob_sub d es"

text \<open>
  \<open>get_files_to_process\<close> keeps the regular files that \<open>is_valid_file\<close> accepts. Its
  \<open>except\<close> clause returns the files found so far when the scan raises; the scan of a
  tree given as a value does not raise.
\<close>

definition get_files_to_process :: "path \<Rightarrow> entry list \<Rightarrow> path list" where
  "get_files_to_process directory es =
     map fst (filter (\<lambda>(file_path, is_file). is_file \<and> is_valid_file file_path)
                     (rglob directory es))"

subsection \<open>\<open>doclingGUI.py\<close>: \<open>_find_pdf_files\<close>\<close>

text \<open>
  The test \<open>file.lower().endswith('.pdf')\<close> of \<open>_find_pdf_files\<close> and of
  \<open>_delete_processed_pdfs\<close>, and the list that \<open>_find_pdf_files\<close> builds from
  \<open>os.walk\<close>. Its \<open>except OSError\<close> clause is never entered, since \<open>os.walk\<close> raises no
  \<open>OSError\<close>.
\<close>

definition is_pdf_name :: "string \<Rightarrow> bool" where
  "is_pdf_name file = endswith (lower file) ''.pdf''"

definition find_pdf_files :: "string \<Rightarrow> entry list option \<Rightarrow> string list" where
  "find_pdf_files folder tree =
     concat (map (\<lambda>(rootdir, dirs, files). map (os_path_join rootdir) (filter is_pdf_name files))
                 (os_walk folder tree))"

section \<open>The operating system and what a run leaves behind\<close>

text \<open>
  Both front-ends act on the world through a handful of calls. Each call is a parameter
  of the model: it takes the state \<open>'w\<close> of the world and returns its answer with the new
  state, so nothing is assumed of the file system or of the external tool. An error is
  the text of the \<open>OSError\<close> raised.
\<close>

datatype proc_result =
  Exited int string string
  | SpawnFailed string

text \<open>
  \<open>subprocess.run(..., capture_output=True, text=True)\<close> either ends with a return code,
  the captured standard output and the captured standard error (in this order), or
  raises \<open>OSError\<close> because the program could not be started.
\<close>

record 'w system =
  getcwd :: string
  path_exists :: "string \<Rightarrow> 'w \<Rightarrow> bool"
  scan_tree :: "string \<Rightarrow> 'w \<Rightarrow> entry list option"
  os_makedirs :: "string \<Rightarrow> bool \<Rightarrow> 'w \<Rightarrow> string option \<times> 'w"
  subprocess_run :: "string list \<Rightarrow> 'w \<Rightarrow> proc_result \<times> 'w"
  os_remove :: "string \<Rightarrow> 'w \<Rightarrow> string option \<times> 'w"

text \<open>
  The trace of a run: every call that changes the world with its outcome, every log
  record at level \<open>INFO\<close> or above (both programs set the level to \<open>INFO\<close>, so their
  \<open>debug\<close> records are dropped), every dialog, and the signals of the worker thread of
  \<open>main.py\<close>.
\<close>

datatype log_level = INFO | WARNING | ERROR

datatype box = Information | Critical

datatype event =
  Makedirs string "string option"
  | Run "string list" proc_result
  | Remove string "string option"
  | Log log_level string
  | MessageBox box string string
  | Progress string
  | Error string
  | Finished

text \<open>The states of a run, as the specification names them.\<close>

datatype run_state = Idle | Running nat nat | Cancelled | Completed | Failed string

definition nl :: string where
  "nl = [CHR 0x0A]"

definition quote :: string where
  "quote = [CHR 0x27]"

section \<open>\<open>main.py\<close>: the worker thread\<close>

record ProcessingConfig =
  input_path :: string
  output_path :: string
  export_format :: string
  table_mode :: string
  force_ocr :: bool
  ocr_bitmaps :: bool
  temp_dir :: string

definition build_docling_command :: "ProcessingConfig \<Rightarrow> path \<Rightarrow> string list" where
  "build_docling_command config file_path =
     [''docling'',
      path_str file_path,
      ''--to'', export_format config,
      ''--output'', output_path config,
      ''--table-mode'', table_mode config,
      ''--ocr-engine'', ''easyocr'',
      ''--verbose'']
     @ (if force_ocr config then [''--force-ocr''] else [])
     @ (if ocr_bitmaps config then [''--ocr''] else [])"

text \<open>
  \<open>_process_single_file\<close>: with \<open>check=True\<close> a return code other than zero raises
  \<open>CalledProcessError\<close>, which is turned into a \<open>RuntimeError\<close>; an \<open>OSError\<close> of the
  start passes through.
\<close>

definition process_single_file ::
  "'w system \<Rightarrow> ProcessingConfig \<Rightarrow> path \<Rightarrow> 'w \<Rightarrow> exn option \<times> event list \<times> 'w" where
  "process_single_file sys config file_path w =
     (let cmd = build_docling_command config file_path
      in case subprocess_run sys cmd w of
           (SpawnFailed e, w1) \<Rightarrow> (Some (OSError e), [Run cmd (SpawnFailed e)], w1)
         | (Exited returncode out err, w1) \<Rightarrow>
             (if returncode \<noteq> 0
              then (Some (RuntimeError (''Docling failed: '' @ err)),
                    [Run cmd (Exited returncode out err)], w1)
              else (None, [Run cmd (Exited returncode out err)], w1)))"

text \<open>
  The loop of \<open>_process_files\<close>. The flag \<open>self.is_cancelled\<close> is written by the window's
  thread (\<open>cancel\<close> sets it and nothing clears it) and read by the worker at the top of
  each iteration only: \<open>is_cancelled i\<close> is the value read at the top of iteration \<open>i\<close>,
  counted from zero. An exception of one file is logged and signalled, and the loop goes on.
\<close>

fun process_loop ::
  "'w system \<Rightarrow> ProcessingConfig \<Rightarrow> (nat \<Rightarrow> bool) \<Rightarrow> nat \<Rightarrow> path list \<Rightarrow> 'w
     \<Rightarrow> run_state \<times> event list \<times> 'w" where
  "process_loop sys config is_cancelled i [] w = (Completed, [], w)"
| "process_loop sys config is_cancelled i (file_path # rest) w =
     (if is_cancelled i then (Cancelled, [Log INFO ''Processing cancelled by user''], w)
      else
        (case process_single_file sys config file_path w of
           (r, evs1, w1) \<Rightarrow>
             (case process_loop sys config is_cancelled (Suc i) rest w1 of
                (x, evs3, w2) \<Rightarrow>
                  (x,
                   Progress (''Processing '' @ path_str file_path) # evs1
                   @ (case r of
                        None \<Rightarrow> []
                      | Some e \<Rightarrow>
                          [Log ERROR (''Error processing '' @ path_str file_path @ '': '' @ exn_str e),
                           Error (''Failed to process '' @ path_name file_path @ '': '' @ exn_str e)])
                   @ evs3,
                   w2))))"

definition files_to_process :: "'w system \<Rightarrow> ProcessingConfig \<Rightarrow> 'w \<Rightarrow> path list" where
  "files_to_process sys config w =
     get_files_to_process (path_of (input_path config))
       (case scan_tree sys (input_path config) w of None \<Rightarrow> [] | Some es \<Rightarrow> es)"

definition process_files ::
  "'w system \<Rightarrow> ProcessingConfig \<Rightarrow> (nat \<Rightarrow> bool) \<Rightarrow> 'w \<Rightarrow> run_state \<times> event list \<times> 'w" where
  "process_files sys config is_cancelled w =
     process_loop sys config is_cancelled 0 (files_to_process sys config w) w"

text \<open>
  \<open>run\<close> wraps \<open>_process_files\<close> in \<open>try\<close>, \<open>except Exception\<close> and \<open>finally\<close>.
  \<open>run_protected\<close> is that wrapper, applied to any outcome of the body: an exception
  \<open>Inl e\<close> or a normal return.
\<close>

definition run_protected ::
  "(exn + run_state) \<times> event list \<times> 'w \<Rightarrow> run_state \<times> event list \<times> 'w" where
  "run_protected body =
     (case body of
        (Inl e, evs, w) \<Rightarrow>
          (Failed (exn_str e),
           evs @ [Log ERROR (''Error in worker thread: '' @ exn_str e), Error (exn_str e)]
               @ [Finished], w)
      | (Inr x, evs, w) \<Rightarrow> (x, evs @ [Finished], w))"

definition run ::
  "'w system \<Rightarrow> ProcessingConfig \<Rightarrow> (nat \<Rightarrow> bool) \<Rightarrow> 'w \<Rightarrow> run_state \<times> event list \<times> 'w" where
  "run sys config is_cancelled w =
     run_protected (case process_files sys config is_cancelled w of
                      (x, evs, w1) \<Rightarrow> (Inr x, evs, w1))"

section \<open>\<open>doclingGUI.py\<close>: settings\<close>

text \<open>
  \<open>AppSettings\<close> is a dataclass; Python does not enforce the annotations of its fields.
  The record is therefore polymorphic in the types of its text fields, its flags and its
  verbosity: \<open>SettingsManager\<close> moves JSON values through it, \<open>get_config\<close> fills it with
  strings and booleans, the verbosity a string too.
\<close>

record ('s, 'b, 'v) AppSettings =
  input_path :: 's
  output_path :: 's
  ocr_enabled :: 'b
  force_ocr :: 'b
  ocr_engine :: 's
  table_mode :: 's
  verbosity :: 'v
  delete_pdfs :: 'b

text \<open>
  The values \<open>json.load\<close> returns. A float is kept as its literal; an object keeps its
  members in the order of the file.
\<close>

datatype json =
  JNull
  | JBool bool
  | JInt int
  | JFloat string
  | JStr string
  | JArray "json list"
  | JObject "(string \<times> json) list"

type_synonym settings = "(json, json, json) AppSettings"

text \<open>
  The settings file: missing, present but not to be opened (the \<open>OSError\<close> text), or
  present with text that \<open>json.load\<close> rejects (the text of the \<open>JSONDecodeError\<close>) or
  parses into a document.
\<close>

datatype file_content = NotJson string | Doc json

datatype file_state = Missing | Unreadable string | Present file_content

text \<open>
  \<open>d.get(key, default)\<close> on the dictionary \<open>json.load\<close> builds from an object: of two
  members with the same key the later one counts.
\<close>

definition dict_get :: "(string \<times> json) list \<Rightarrow> string \<Rightarrow> json \<Rightarrow> json" where
  "dict_get d key dflt = (case map_of (rev d) key of None \<Rightarrow> dflt | Some v \<Rightarrow> v)"

text \<open>
  The defaults of \<open>SettingsManager.__init__\<close>; \<open>documents\<close> is the value of
  \<open>os.path.expanduser("~/Documents")\<close>.
\<close>

definition default_settings :: "string \<Rightarrow> settings" where
  "default_settings documents =
     \<lparr>input_path = JStr documents,
      output_path = JStr documents,
      ocr_enabled = JBool False,
      force_ocr = JBool False,
      ocr_engine = JStr ''easyocr'',
      table_mode = JStr ''accurate'',
      verbosity = JInt 0,
      delete_pdfs = JBool False\<rparr>"

fun type_name :: "json \<Rightarrow> string" where
  "type_name JNull = ''NoneType''"
| "type_name (JBool b) = ''bool''"
| "type_name (JInt i) = ''int''"
| "type_name (JFloat x) = ''float''"
| "type_name (JStr s) = ''str''"
| "type_name (JArray xs) = ''list''"
| "type_name (JObject kvs) = ''dict''"

text \<open>
  \<open>load_settings\<close> returns the settings or raises, and logs a warning when it falls back
  to the defaults after an error. Only \<open>JSONDecodeError\<close> and \<open>OSError\<close> are caught: the
  \<open>AttributeError\<close> of \<open>saved_settings.get\<close> on a document that is not an object leaves
  the method.
\<close>

definition load_settings :: "string \<Rightarrow> file_state \<Rightarrow> (exn + settings) \<times> event list" where
  "load_settings documents file =
     (let defaults = default_settings documents
      in case file of
           Missing \<Rightarrow> (Inr defaults, [])
         | Unreadable e \<Rightarrow> (Inr defaults, [Log WARNING (''Failed to load settings: '' @ e)])
         | Present (NotJson e) \<Rightarrow> (Inr defaults, [Log WARNING (''Failed to load settings: '' @ e)])
         | Present (Doc (JObject saved_settings)) \<Rightarrow>
             (Inr \<lparr>input_path = dict_get saved_settings ''input_path'' (input_path defaults),
                   output_path = dict_get saved_settings ''output_path'' (output_path defaults),
                   ocr_enabled = dict_get saved_settings ''ocr_enabled'' (ocr_enabled defaults),
                   force_ocr = dict_get saved_settings ''force_ocr'' (force_ocr defaults),
                   ocr_engine = dict_get saved_settings ''ocr_engine'' (ocr_engine defaults),
                   table_mode = dict_get saved_settings ''table_mode'' (table_mode defaults),
                   verbosity = dict_get saved_settings ''verbosity'' (verbosity defaults),
                   delete_pdfs = dict_get saved_settings ''delete_pdfs'' (delete_pdfs defaults)\<rparr>,
              [])
         | Present (Doc v) \<Rightarrow>
             (Inl (AttributeError (quote @ type_name v @ quote @ '' object has no attribute ''
                                   @ quote @ ''get'' @ quote)),
              []))"

text \<open>
  What happens to the file when \<open>save_settings\<close> writes: the write succeeds, \<open>open\<close>
  fails and the file stays as it was, or the write fails after \<open>open\<close> has truncated the
  file and leaves some content behind.
\<close>

datatype write_outcome =
  Written
  | OpenFailed string
  | WriteFailed string file_content

definition settings_dict :: "settings \<Rightarrow> (string \<times> json) list" where
  "settings_dict settings =
     [(''input_path'', input_path settings),
      (''output_path'', output_path settings),
      (''ocr_enabled'', ocr_enabled settings),
      (''force_ocr'', force_ocr settings),
      (''ocr_engine'', ocr_engine settings),
      (''table_mode'', table_mode settings),
      (''verbosity'', verbosity settings),
      (''delete_pdfs'', delete_pdfs settings)]"

definition save_settings ::
  "write_outcome \<Rightarrow> settings \<Rightarrow> file_state \<Rightarrow> file_state \<times> event list" where
  "save_settings io settings file =
     (case io of
        Written \<Rightarrow> (Present (Doc (JObject (settings_dict settings))), [])
      | OpenFailed e \<Rightarrow> (file, [Log ERROR (''Failed to save settings: '' @ e)])
      | WriteFailed e left \<Rightarrow> (Present left, [Log ERROR (''Failed to save settings: '' @ e)]))"

text \<open>A settings value whose fields have the types the dataclass announces.\<close>

definition valid_settings :: "settings \<Rightarrow> bool" where
  "valid_settings s =
     (type_name (input_path s) = ''str'' \<and> type_name (output_path s) = ''str''
      \<and> type_name (ocr_enabled s) = ''bool'' \<and> type_name (force_ocr s) = ''bool''
      \<and> type_name (ocr_engine s) = ''str'' \<and> type_name (table_mode s) = ''str''
      \<and> type_name (verbosity s) = ''int'' \<and> type_name (delete_pdfs s) = ''bool'')"

section \<open>\<open>doclingGUI.py\<close>: the conversion\<close>

text \<open>
  The widgets of the window that the conversion reads or writes: the two line edits, the
  check boxes, the combo boxes, the spin box (its range is 0 to 2), the labels, the
  progress bar and the run button.
\<close>

record gui =
  input_path_text :: string
  output_path_text :: string
  ocr_checkbox :: bool
  force_ocr_checkbox :: bool
  delete_pdfs_checkbox :: bool
  ocr_engine_combo :: string
  table_mode_combo :: string
  verbosity_spinbox :: int
  status_label :: string
  progress_info :: string
  progress_bar_maximum :: nat
  progress_bar_value :: nat
  run_button_enabled :: bool
  run_button_text :: string

type_synonym config = "(string, bool, string) AppSettings"

definition get_config :: "gui \<Rightarrow> config" where
  "get_config g =
     (let verbosity_level = verbosity_spinbox g;
          verbosity = (if verbosity_level > 0 then concat (replicate (nat verbosity_level) ''-v'')
                       else [])
      in \<lparr>input_path = strip (input_path_text g),
          output_path = strip (output_path_text g),
          ocr_enabled = ocr_checkbox g,
          force_ocr = force_ocr_checkbox g,
          ocr_engine = ocr_engine_combo g,
          table_mode = table_mode_combo g,
          verbosity = verbosity,
          delete_pdfs = delete_pdfs_checkbox g\<rparr>)"

definition validate_paths :: "'w system \<Rightarrow> gui \<Rightarrow> 'w \<Rightarrow> string option \<times> event list \<times> 'w" where
  "validate_paths sys g w =
     (let input_folder = strip (input_path_text g);
          output_folder = strip (output_path_text g)
      in if input_folder = [] \<or> output_folder = []
         then (Some ''Please specify both input and output folders.'', [], w)
         else if \<not> path_exists sys input_folder w
         then (Some ''Input folder does not exist.'', [], w)
         else if \<not> path_exists sys output_folder w
         then (case os_makedirs sys output_folder False w of
                 (Some e, w1) \<Rightarrow>
                   (Some (''Failed to create output folder: '' @ e),
                    [Makedirs output_folder (Some e)], w1)
               | (None, w1) \<Rightarrow> (None, [Makedirs output_folder None], w1))
         else (None, [], w))"

text \<open>The argument list that \<open>_process_conversion\<close> builds for one file.\<close>

definition build_command :: "config \<Rightarrow> string \<Rightarrow> string \<Rightarrow> string list" where
  "build_command config pdf_file output_dir =
     [''docling'']
     @ [pdf_file]
     @ [''--from'', ''pdf'', ''--to'', ''md'']
     @ (if ocr_enabled config then [''--ocr''] else [''--no-ocr''])
     @ (if force_ocr config then [''--force-ocr''] else [''--no-force-ocr''])
     @ [''--ocr-engine'', ocr_engine config]
     @ [''--table-mode'', table_mode config]
     @ [''--output'', output_dir]
     @ (if verbosity config \<noteq> [] then [verbosity config] else [])"

definition error_message :: "string \<Rightarrow> int \<Rightarrow> string \<Rightarrow> string \<Rightarrow> string" where
  "error_message filename returncode err out =
     ''Error processing '' @ filename @ nl
     @ ''Command failed with exit status '' @ str_int returncode @ nl
     @ ''Error output:'' @ nl @ (if err \<noteq> [] then err else ''No error output'') @ nl
     @ ''Standard output:'' @ nl @ (if out \<noteq> [] then out else ''No standard output'')"

text \<open>
  The body of the loop for one file, after the labels are set: the output directory that
  mirrors the file's place under the input folder is created, the tool is run, and a
  return code other than zero raises \<open>RuntimeError\<close>. Any exception ends the loop.
\<close>

definition output_dir_for :: "string \<Rightarrow> config \<Rightarrow> string \<Rightarrow> exn + string" where
  "output_dir_for cwd config pdf_file =
     (case os_path_relpath cwd pdf_file (input_path config) of
        Inl e \<Rightarrow> Inl e
      | Inr relative_path \<Rightarrow>
          Inr (os_path_join (output_path config) (os_path_dirname relative_path)))"

definition run_command ::
  "'w system \<Rightarrow> string \<Rightarrow> string list \<Rightarrow> 'w \<Rightarrow> exn option \<times> event list \<times> 'w" where
  "run_command sys filename command w =
     (case subprocess_run sys command w of
        (SpawnFailed e, w1) \<Rightarrow> (Some (OSError e), [Run command (SpawnFailed e)], w1)
      | (Exited returncode out err, w1) \<Rightarrow>
          (if returncode \<noteq> 0
           then (Some (RuntimeError (error_message filename returncode err out)),
                 [Run command (Exited returncode out err),
                  Log ERROR (error_message filename returncode err out)],
                 w1)
           else (None,
                 [Run command (Exited returncode out err)]
                 @ (if err \<noteq> [] then [Log WARNING (''Command stderr output:'' @ nl @ err)] else [])
                 @ (if out \<noteq> [] then [Log INFO (''Command stdout output:'' @ nl @ out)] else []),
                 w1)))"

definition convert_file ::
  "'w system \<Rightarrow> config \<Rightarrow> nat \<Rightarrow> nat \<Rightarrow> string \<Rightarrow> 'w \<Rightarrow> exn option \<times> event list \<times> 'w" where
  "convert_file sys config total_files index pdf_file w =
     (case output_dir_for (getcwd sys) config pdf_file of
        Inl e \<Rightarrow> (Some e, [], w)
      | Inr output_dir \<Rightarrow>
          (case os_makedirs sys output_dir True w of
             (Some e, w1) \<Rightarrow> (Some (OSError e), [Makedirs output_dir (Some e)], w1)
           | (None, w1) \<Rightarrow>
               (let command = build_command config pdf_file output_dir
                in case run_command sys (os_path_basename pdf_file) command w1 of
                     (r, evs, w2) \<Rightarrow>
                       (r,
                        [Makedirs output_dir None,
                         Log INFO (''Processing file '' @ str_nat index @ ''/''
                                   @ str_nat total_files @ '': '' @ pdf_file),
                         Log INFO (''Running command: '' @ str_join '' '' command)]
                        @ evs,
                        w2))))"

text \<open>The loop over the discovered files, \<open>index\<close> counting from one.\<close>

fun convert_files ::
  "'w system \<Rightarrow> config \<Rightarrow> nat \<Rightarrow> nat \<Rightarrow> string list \<Rightarrow> gui \<Rightarrow> 'w
     \<Rightarrow> exn option \<times> gui \<times> event list \<times> 'w" where
  "convert_files sys config total_files index [] g w = (None, g, [], w)"
| "convert_files sys config total_files index (pdf_file # rest) g w =
     (let g1 = g\<lparr>status_label := ''Processing: '' @ os_path_basename pdf_file,
                 progress_info := str_nat index @ ''/'' @ str_nat total_files @ '' files processed''\<rparr>
      in case convert_file sys config total_files index pdf_file w of
           (Some e, evs, w1) \<Rightarrow> (Some e, g1, evs, w1)
         | (None, evs, w1) \<Rightarrow>
             (case convert_files sys config total_files (Suc index) rest
                     (g1\<lparr>progress_bar_value := index\<rparr>) w1 of
                (r, g2, evs2, w2) \<Rightarrow> (r, g2, evs @ evs2, w2)))"

text \<open>\<open>_delete_processed_pdfs\<close>: a failure to remove one file is logged and the loop goes on.\<close>

fun remove_pdfs :: "'w system \<Rightarrow> string list \<Rightarrow> 'w \<Rightarrow> event list \<times> 'w" where
  "remove_pdfs sys [] w = ([], w)"
| "remove_pdfs sys (pdf_path # rest) w =
     (case os_remove sys pdf_path w of
        (None, w1) \<Rightarrow>
          (case remove_pdfs sys rest w1 of
             (evs, w2) \<Rightarrow>
               (Remove pdf_path None # Log INFO (''Deleted PDF: '' @ pdf_path) # evs, w2))
      | (Some e, w1) \<Rightarrow>
          (case remove_pdfs sys rest w1 of
             (evs, w2) \<Rightarrow>
               (Remove pdf_path (Some e)
                # Log ERROR (''Failed to delete PDF '' @ pdf_path @ '': '' @ e) # evs, w2)))"

definition delete_processed_pdfs :: "'w system \<Rightarrow> string \<Rightarrow> 'w \<Rightarrow> event list \<times> 'w" where
  "delete_processed_pdfs sys folder w =
     remove_pdfs sys
       (concat (map (\<lambda>(rootdir, dirs, files). map (os_path_join rootdir) (filter is_pdf_name files))
                    (os_walk folder (scan_tree sys folder w))))
       w"

text \<open>
  \<open>_process_conversion\<close>: the body of its \<open>try\<close> first, then the method with its
  \<open>finally\<close> block. The result is the exception raised, if any. The call of
  \<open>QApplication.processEvents\<close> after each file is taken to find no pending event.
\<close>

definition conversion_body ::
  "'w system \<Rightarrow> config \<Rightarrow> gui \<Rightarrow> 'w \<Rightarrow> exn option \<times> gui \<times> event list \<times> 'w" where
  "conversion_body sys config g w =
     (let g0 = g\<lparr>run_button_enabled := False, run_button_text := ''Converting...''\<rparr>;
          pdf_files = find_pdf_files (input_path config) (scan_tree sys (input_path config) w)
      in if pdf_files = []
         then (Some (RuntimeError ''No PDF files found in the input folder''), g0, [], w)
         else
           let total_files = length pdf_files;
               g1 = g0\<lparr>progress_bar_maximum := total_files, progress_bar_value := 0\<rparr>
           in case convert_files sys config total_files 1 pdf_files g1 w of
                (Some e, g2, evs, w2) \<Rightarrow> (Some e, g2, evs, w2)
              | (None, g2, evs, w2) \<Rightarrow>
                  (case (if delete_pdfs config
                         then (case delete_processed_pdfs sys (input_path config) w2 of
                                 (devs, w3) \<Rightarrow>
                                   (g2\<lparr>status_label := ''Deleting processed PDF files...''\<rparr>,
                                    devs, w3))
                         else (g2, [], w2)) of
                     (g3, devs, w3) \<Rightarrow>
                       (None,
                        g3\<lparr>status_label := ''Conversion completed successfully!'',
                           progress_info := ''Processed '' @ str_nat total_files @ '' files''\<rparr>,
                        evs @ devs, w3)))"

definition process_conversion ::
  "'w system \<Rightarrow> config \<Rightarrow> gui \<Rightarrow> 'w \<Rightarrow> exn option \<times> gui \<times> event list \<times> 'w" where
  "process_conversion sys config g w =
     (case conversion_body sys config g w of
        (r, g1, evs, w1) \<Rightarrow>
          (r, g1\<lparr>run_button_enabled := True, run_button_text := ''Run Conversion''\<rparr>, evs, w1))"

definition run_conversion :: "'w system \<Rightarrow> gui \<Rightarrow> 'w \<Rightarrow> gui \<times> event list \<times> 'w" where
  "run_conversion sys g w =
     (case validate_paths sys g w of
        (Some message, evs, w1) \<Rightarrow> (g, evs @ [MessageBox Critical ''Error'' message], w1)
      | (None, evs, w1) \<Rightarrow>
          (case process_conversion sys (get_config g) g w1 of
             (None, g1, evs1, w2) \<Rightarrow>
               (g1,
                evs @ evs1 @ [MessageBox Information ''Success'' ''Conversion completed successfully!''],
                w2)
           | (Some e, g1, evs1, w2) \<Rightarrow>
               (g1,
                evs @ evs1 @ [Log ERROR (''Conversion failed: '' @ exn_str e),
                              MessageBox Critical ''Error'' (''Conversion failed:'' @ nl @ exn_str e)],
                w2)))"

text \<open>\<open>save_current_settings\<close> stores the spin box's number as the verbosity.\<close>

definition save_current_settings ::
  "write_outcome \<Rightarrow> gui \<Rightarrow> file_state \<Rightarrow> file_state \<times> event list" where
  "save_current_settings io g file =
     save_settings io
       \<lparr>input_path = JStr (strip (input_path_text g)),
        output_path = JStr (strip (output_path_text g)),
        ocr_enabled = JBool (ocr_checkbox g),
        force_ocr = JBool (force_ocr_checkbox g),
        ocr_engine = JStr (ocr_engine_combo g),
        table_mode = JStr (table_mode_combo g),
        verbosity = JInt (verbosity_spinbox g),
        delete_pdfs = JBool (delete_pdfs_checkbox g)\<rparr>
       file"

section \<open>Notions of the specification\<close>

subsection \<open>What discovery is to return\<close>

text \<open>
  The allow-list of extensions and the hidden-file marker, in the specification's words: a
  file is eligible when its name does not start with a dot and, in lower case, ends with a
  dot followed by an extension of the list.
\<close>

definition allow_list :: "string list" where
  "allow_list = [''pdf'', ''docx'', ''pptx'', ''html'', ''xlsx'', ''md'', ''txt'']"

definition hidden :: "string \<Rightarrow> bool" where
  "hidden name = startswith name ''.''"

definition eligible :: "string \<Rightarrow> bool" where
  "eligible name =
     (\<not> hidden name \<and> list_ex (\<lambda>ext. endswith (lower name) (''.'' @ ext)) allow_list)"

text \<open>The path reached from \<open>d\<close> through the names \<open>ds\<close>.\<close>

definition below :: "path \<Rightarrow> string list \<Rightarrow> path" where
  "below d ds = Path (root d) (parts d @ ds)"

text \<open>The input directory of the specification's scenario.\<close>

definition scenario :: "entry list" where
  "scenario = [File ''a.pdf'', File ''b.docx'', File ''.hidden.pdf'', File ''c.exe'']"

definition name_suffix :: "string \<Rightarrow> string" where
  "name_suffix name =
     (let i = rfind name CHR ''.''
      in if 0 < i \<and> i < int (length name) - 1 then drop (nat i) name else [])"

subsection \<open>Reading a trace\<close>

text \<open>
  The external processes of a trace with their results, and the removals with theirs, in
  the order they happened. A process succeeded when it ended with return code zero.
\<close>

fun runs :: "event list \<Rightarrow> (string list \<times> proc_result) list" where
  "runs [] = []"
| "runs (Run c res # evs) = (c, res) # runs evs"
| "runs (e # evs) = runs evs"

fun removals :: "event list \<Rightarrow> (string \<times> string option) list" where
  "removals [] = []"
| "removals (Remove p res # evs) = (p, res) # removals evs"
| "removals (e # evs) = removals evs"

definition succeeded :: "proc_result \<Rightarrow> bool" where
  "succeeded res = (case res of Exited returncode out err \<Rightarrow> returncode = 0 | SpawnFailed e \<Rightarrow> False)"

text \<open>The files \<open>_process_conversion\<close> discovers when it starts in the world \<open>w\<close>.\<close>

definition discovered :: "'w system \<Rightarrow> config \<Rightarrow> 'w \<Rightarrow> string list" where
  "discovered sys config w =
     find_pdf_files (input_path config) (scan_tree sys (input_path config) w)"


text \<open>The components of the absolute path that \<open>relpath\<close> compares.\<close>

definition abs_parts :: "string \<Rightarrow> string \<Rightarrow> string list" where
  "abs_parts cwd p = filter (\<lambda>x. x \<noteq> []) (split_sep (os_path_abspath cwd p))"

section \<open>Sample inputs\<close>

definition sample_settings :: settings where
  "sample_settings =
     \<lparr>input_path = JStr ''/home/u/in'', output_path = JStr ''/home/u/out'',
      ocr_enabled = JBool True, force_ocr = JBool False, ocr_engine = JStr ''tesseract'',
      table_mode = JStr ''fast'', verbosity = JInt 2, delete_pdfs = JBool True\<rparr>"

text \<open>
  A system for the examples: a fixed tree under every folder, a tool that answers by its
  command line alone, a removal that answers by the path alone, directories that can
  always be created. Its world has a single state.
\<close>

definition sample_system ::
  "entry list \<Rightarrow> (string list \<Rightarrow> proc_result) \<Rightarrow> (string \<Rightarrow> string option) \<Rightarrow> unit system" where
  "sample_system es tool rm =
     \<lparr>getcwd = ''/work'',
      path_exists = (\<lambda>p w. True),
      scan_tree = (\<lambda>p w. Some es),
      os_makedirs = (\<lambda>d exist_ok w. (None, w)),
      subprocess_run = (\<lambda>c w. (tool c, w)),
      os_remove = (\<lambda>p w. (rm p, w))\<rparr>"

definition sample_config :: config where
  "sample_config =
     \<lparr>input_path = ''/in'', output_path = ''/out'', ocr_enabled = False, force_ocr = False,
      ocr_engine = ''easyocr'', table_mode = ''accurate'', verbosity = [], delete_pdfs = False\<rparr>"

definition sample_gui :: gui where
  "sample_gui =
     \<lparr>input_path_text = ''/in'', output_path_text = ''/out'', ocr_checkbox = False,
      force_ocr_checkbox = False, delete_pdfs_checkbox = False, ocr_engine_combo = ''easyocr'',
      table_mode_combo = ''accurate'', verbosity_spinbox = 0,
      status_label = ''Ready to start conversion...'', progress_info = ''0/0 files processed'',
      progress_bar_maximum = 100, progress_bar_value = 0,
      run_button_enabled = True, run_button_text = ''Run Conversion''\<rparr>"

definition parse_error_tool :: "string list \<Rightarrow> proc_result" where
  "parse_error_tool c = Exited 1 [] ''parse error''"

definition two_pdfs :: "entry list" where
  "two_pdfs = [File ''a.pdf'', File ''b.pdf'']"

definition failing_system :: "unit system" where
  "failing_system = sample_system two_pdfs parse_error_tool (\<lambda>p. None)"

definition ok_tool :: "string list \<Rightarrow> proc_result" where
  "ok_tool c = Exited 0 ''ok'' []"

definition nested :: "entry list" where
  "nested = [Dir ''sub'' [File ''a.pdf'']]"

definition nested_system :: "unit system" where
  "nested_system = sample_system nested ok_tool (\<lambda>p. Some ''denied'')"

definition sample_processing_config :: ProcessingConfig where
  "sample_processing_config =
     \<lparr>ProcessingConfig.input_path = ''/in'', output_path = ''/out'', export_format = ''md'',
      table_mode = ''fast'', force_ocr = False, ocr_bitmaps = False, temp_dir = ''/tmp/t''\<rparr>"

definition three_files :: "entry list" where
  "three_files = [File ''a.pdf'', File ''b.docx'', File ''c.md'']"

definition three_system :: "unit system" where
  "three_system = sample_system three_files ok_tool (\<lambda>p. None)"

definition empty_system :: "unit system" where
  "empty_system = sample_system [] ok_tool (\<lambda>p. None)"

section \<open>What discovery returns\<close>

subsection \<open>String facts\<close>

lemmas str_eval = lower_def lower_char_def startswith_def endswith_def

lemma lower_char_dot: "lower_char c = CHR ''.'' \<longleftrightarrow> c = CHR ''.''"
  by (auto simp: lower_char_def split: option.splits if_splits)

lemma rfind_notin: "c \<notin> set b \<Longrightarrow> rfind b c = -1"
  by (induction b) (auto simp: Let_def)

lemma rfind_last: "c \<notin> set b \<Longrightarrow> rfind (a @ c # b) c = int (length a)"
  by (induction a) (auto simp: Let_def rfind_notin)

lemma rfind_split:
  "0 \<le> rfind s c \<Longrightarrow> \<exists>a b. s = a @ c # b \<and> c \<notin> set b \<and> rfind s c = int (length a)"
proof (induction s)
  case Nil
  then show ?case by simp
next
  case (Cons x s)
  show ?case
  proof (cases "0 \<le> rfind s c")
    case True
    with Cons.IH obtain a b where "s = a @ c # b" "c \<notin> set b" "rfind s c = int (length a)"
      by blast
    then have "x # s = (x # a) @ c # b \<and> c \<notin> set b \<and> rfind (x # s) c = int (length (x # a))"
      by (simp add: Let_def)
    then show ?thesis by blast
  next
    case False
    with Cons.prems have "x = c" and "rfind (x # s) c = 0"
      by (auto simp: Let_def split: if_splits)
    moreover from False have "c \<notin> set s"
      using rfind_last[of c _ _] 
      by (metis in_set_conv_decomp_last of_nat_0_le_iff rfind_last)
    ultimately have "x # s = [] @ c # s \<and> c \<notin> set s \<and> rfind (x # s) c = int (length ([]::string))"
      by simp
    then show ?thesis by blast
  qed
qed

lemma endswith_append: "endswith (a @ b) b"
  by (simp add: endswith_def)

lemma endswith_iff: "endswith s p \<longleftrightarrow> (\<exists>a. s = a @ p)"
  by (auto simp: endswith_def) (metis append_take_drop_id)

lemma startswith_dot: "startswith s ''.'' \<longleftrightarrow> (\<exists>t. s = CHR ''.'' # t)"
  by (cases s) (auto simp: startswith_def)

lemma lower_no_dot: "CHR ''.'' \<notin> set (lower b) \<Longrightarrow> CHR ''.'' \<notin> set b"
  by (auto simp: lower_def image_iff lower_char_dot) (metis lower_char_dot)

lemma path_suffix_name: "path_suffix p = name_suffix (path_name p)"
  by (simp add: path_suffix_def name_suffix_def Let_def)

lemma allowed_ext_props:
  "ext \<in> set allow_list \<Longrightarrow> ext \<noteq> [] \<and> CHR ''.'' \<notin> set ext \<and> ''.'' @ ext \<in> VALID_EXTENSIONS"
  by (auto simp: allow_list_def VALID_EXTENSIONS_def)

lemma valid_ext_allowed:
  "e \<in> VALID_EXTENSIONS \<Longrightarrow> \<exists>ext \<in> set allow_list. e = ''.'' @ ext"
  by (auto simp: allow_list_def VALID_EXTENSIONS_def)

lemma eligible_imp_valid_suffix:
  assumes nh: "\<not> startswith name ''.''"
    and ext: "ext \<in> set allow_list"
    and e: "endswith (lower name) (''.'' @ ext)"
  shows "lower (name_suffix name) = ''.'' @ ext"
proof -
  from e obtain pre where "lower name = pre @ ''.'' @ ext"
    by (auto simp: endswith_iff)
  then have "map lower_char name = pre @ CHR ''.'' # ext"
    by (simp add: lower_def)
  then obtain a r where name: "name = a @ r" and a: "map lower_char a = pre"
    and r: "map lower_char r = CHR ''.'' # ext"
    by (auto simp: map_eq_append_conv)
  from r obtain c b where rcb: "r = c # b" and c: "lower_char c = CHR ''.''"
    and b: "map lower_char b = ext"
    by (auto simp: map_eq_Cons_conv)
  from c have cdot: "c = CHR ''.''" by (simp add: lower_char_dot)
  from ext have extp: "ext \<noteq> []" "CHR ''.'' \<notin> set ext"
    using allowed_ext_props by blast+
  from b extp have bdot: "CHR ''.'' \<notin> set b"
    using lower_no_dot[of b] by (simp add: lower_def)
  from b extp have bne: "b \<noteq> []" by auto
  from nh name rcb cdot have ane: "a \<noteq> []"
    by (auto simp: startswith_def)
  have rf: "rfind name CHR ''.'' = int (length a)"
    using name rcb cdot bdot by (simp add: rfind_last)
  have "name_suffix name = CHR ''.'' # b"
    using rf ane bne name rcb cdot by (simp add: name_suffix_def Let_def)
  then show ?thesis using b by (simp add: lower_def lower_char_dot)
  qed

lemma valid_suffix_imp_endswith:
  assumes "lower (name_suffix name) = e" "e \<noteq> []"
  shows "endswith (lower name) e"
proof -
  from assms have "name_suffix name \<noteq> []" by (auto simp: lower_def)
  then have "name_suffix name = drop (nat (rfind name CHR ''.'')) name"
    by (auto simp: name_suffix_def Let_def split: if_splits)
  then have "lower name = lower (take (nat (rfind name CHR ''.'')) name) @ lower (name_suffix name)"
    by (metis append_take_drop_id lower_def map_append)
  then show ?thesis using assms endswith_append by metis
qed

lemma is_valid_file_iff: "is_valid_file p \<longleftrightarrow> eligible (path_name p)"
proof
  assume v: "is_valid_file p"
  then have nh: "\<not> startswith (path_name p) ''.''"
    and "lower (name_suffix (path_name p)) \<in> VALID_EXTENSIONS"
    by (simp_all add: is_valid_file_def path_suffix_name)
  then obtain ext where ext: "ext \<in> set allow_list"
    and l: "lower (name_suffix (path_name p)) = ''.'' @ ext"
    using valid_ext_allowed by blast
  then have "endswith (lower (path_name p)) (''.'' @ ext)"
    using valid_suffix_imp_endswith[of "path_name p" "''.'' @ ext"] by simp
  with nh ext show "eligible (path_name p)"
    by (auto simp: eligible_def hidden_def list_ex_iff)
next
  assume "eligible (path_name p)"
  then obtain ext where nh: "\<not> startswith (path_name p) ''.''"
    and ext: "ext \<in> set allow_list"
    and e: "endswith (lower (path_name p)) (''.'' @ ext)"
    by (auto simp: eligible_def hidden_def list_ex_iff)
  then have "lower (name_suffix (path_name p)) = ''.'' @ ext"
    by (rule eligible_imp_valid_suffix)
  with nh ext show "is_valid_file p"
    using allowed_ext_props by (simp add: is_valid_file_def path_suffix_name)
qed

subsection \<open>Discovery against the tree\<close>

lemma child_below: "child (below d ds) n = below d (ds @ [n])"
  by (simp add: child_def below_def)

lemma below_Nil: "below d [] = d"
  by (simp add: below_def)

lemma listing_files:
  "map fst (filter (\<lambda>(p, is_file). is_file \<and> P p) (listing d es))
     = map (child d) (filter (\<lambda>f. P (child d f)) (filenames es))"
  by (induction es rule: filenames.induct) auto

lemma rglob_sub_files:
  "map fst (filter (\<lambda>(p, is_file). is_file \<and> P p) (rglob_sub (below d ds) es))
     = map (\<lambda>(ds', f). below d (ds' @ [f]))
           (filter (\<lambda>(ds', f). P (below d (ds' @ [f]))) (sub_files ds es))"
proof (induction ds es rule: sub_files.induct)
  case (1 ds)
  then show ?case by simp
next
  case (2 ds n es)
  then show ?case by simp
next
  case (3 ds n sub es)
  then show ?case
    by (simp add: child_below listing_files filter_map comp_def)
qed

lemma path_name_below: "path_name (below d (ds @ [f])) = f"
  by (simp add: path_name_def below_def)

lemma get_files_to_process_eq:
  "get_files_to_process d es =
     map (\<lambda>(ds, f). below d (ds @ [f])) (filter (\<lambda>(ds, f). eligible f) (tree_files es))"
proof -
  have "get_files_to_process d es =
     map (\<lambda>(ds, f). below d (ds @ [f]))
         (filter (\<lambda>(ds, f). is_valid_file (below d (ds @ [f]))) (tree_files es))"
    using rglob_sub_files[of is_valid_file d "[]" es] listing_files[of is_valid_file d es]
    by (simp add: get_files_to_process_def rglob_def tree_files_def below_Nil filter_map
        comp_def child_def below_def)
  then show ?thesis
    by (simp add: is_valid_file_iff path_name_below)
qed

lemma os_walk_sub_pdfs:
  "concat (map (\<lambda>(rootdir, dirs, files). map (os_path_join rootdir) (filter P files))
               (os_walk_sub (foldl os_path_join folder ds) es))
     = map (\<lambda>(ds', f). foldl os_path_join folder (ds' @ [f]))
           (filter (\<lambda>(ds', f). P f) (sub_files ds es))"
proof (induction ds es rule: sub_files.induct)
  case (1 ds)
  then show ?case by simp
next
  case (2 ds n es)
  then show ?case by simp
next
  case (3 ds n sub es)
  then show ?case
    by (simp add: filter_map comp_def)
qed

lemma find_pdf_files_eq:
  "find_pdf_files folder (Some es) =
     map (\<lambda>(ds, f). foldl os_path_join folder (ds @ [f]))
         (filter (\<lambda>(ds, f). is_pdf_name f) (tree_files es))"
  using os_walk_sub_pdfs[of is_pdf_name folder "[]" es]
  by (simp add: find_pdf_files_def os_walk_def tree_files_def filter_map comp_def)

text \<open>
  C1, as the code has it. \<open>FileProcessor.get_files_to_process\<close> (\<open>main.py\<close>) returns, in
  traversal order, exactly the regular files of the tree that are eligible: name not
  starting with a dot, extension in the allow-list whatever its case.
  \<open>DoclingGUI._find_pdf_files\<close> (\<open>doclingGUI.py\<close>) returns exactly the files whose name in
  lower case ends with \<open>.pdf\<close>, hidden ones included.
\<close>

theorem discovery_front_ends:
  "get_files_to_process d es =
     map (\<lambda>(ds, f). below d (ds @ [f])) (filter (\<lambda>(ds, f). eligible f) (tree_files es))
   \<and> find_pdf_files folder (Some es) =
     map (\<lambda>(ds, f). foldl os_path_join folder (ds @ [f]))
         (filter (\<lambda>(ds, f). is_pdf_name f) (tree_files es))"
  by (simp add: get_files_to_process_eq find_pdf_files_eq)

text \<open>On the scenario, \<open>main.py\<close> discovers \<open>a.pdf\<close> and \<open>b.docx\<close> and nothing else.\<close>

theorem discovery_scenario:
  "map path_str (get_files_to_process (path_of ''in'') scenario) = [''in/a.pdf'', ''in/b.docx'']"
  using discovery_front_ends[of "path_of ''in''" scenario]
  by (simp add: scenario_def tree_files_def eligible_def hidden_def allow_list_def str_eval
      below_def path_of_def path_str_def)

text \<open>
  C1 as stated fails on \<open>doclingGUI.py\<close>: on the scenario \<open>_find_pdf_files\<close> returns the
  hidden \<open>.hidden.pdf\<close> and leaves \<open>b.docx\<close> out.
\<close>

theorem find_pdf_files_scenario:
  "find_pdf_files ''in'' (Some scenario) = [''in/a.pdf'', ''in/.hidden.pdf'']
   \<and> find_pdf_files ''in'' (Some scenario) \<noteq> [''in/a.pdf'', ''in/b.docx'']"
  by (simp add: scenario_def find_pdf_files_def os_walk_def is_pdf_name_def os_path_join_def str_eval)

section \<open>Path facts\<close>

lemma split_sep_nonempty: "split_sep s \<noteq> []"
  by (induction s) (auto split: list.splits)

lemma split_sep_noslash: "CHR ''/'' \<notin> set n \<Longrightarrow> split_sep n = [n]"
  by (induction n) (auto split: list.splits)

lemma split_sep_append_slash: "split_sep (a @ CHR ''/'' # b) = split_sep a @ split_sep b"
proof (induction a)
  case Nil
  then show ?case by simp
next
  case (Cons x a)
  then show ?case 
    by (cases "split_sep a") (auto simp: split_sep_nonempty)
qed

lemma split_sep_components: "c \<in> set (split_sep s) \<Longrightarrow> CHR ''/'' \<notin> set c"
proof (induction s arbitrary: c)
  case Nil
  then show ?case by simp
next
  case (Cons x s)
  then show ?case
    by (cases "split_sep s") (auto simp: split_sep_nonempty split: if_splits)
qed

lemma norm_step_name:
  "entry_name n \<Longrightarrow> norm_step b acc n = acc @ [n]"
  by (auto simp: norm_step_def entry_name_def)

lemma norm_step_empty: "norm_step b acc [] = acc"
  by (simp add: norm_step_def)

lemma norm_step_subset:
  "set (norm_step b acc c) \<subseteq> set acc \<union> ({c} - {[]})"
  by (auto simp: norm_step_def dest: in_set_butlastD)

lemma foldl_norm_step_subset:
  "set (foldl (norm_step b) acc cs) \<subseteq> set acc \<union> (set cs - {[]})"
proof (induction cs arbitrary: acc)
  case Nil
  then show ?case by simp
next
  case (Cons c cs)
  show ?case
    using Cons.IH[of "norm_step b acc c"] norm_step_subset[of b acc c] by auto
qed

lemma norm_comps_good:
  "c \<in> set (norm_comps q) \<Longrightarrow> c \<noteq> [] \<and> CHR ''/'' \<notin> set c"
  using foldl_norm_step_subset[of "initial_slashes q \<noteq> 0" "[]" "split_sep q"]
    split_sep_components[of c q]
  by (auto simp: norm_comps_def)

lemma entry_name_not_abs: "entry_name n \<Longrightarrow> \<not> startswith n ''/''"
  by (cases n) (auto simp: entry_name_def startswith_def)

lemma startswith_slash: "startswith s ''/'' \<longleftrightarrow> (\<exists>t. s = CHR ''/'' # t)"
  by (cases s) (auto simp: startswith_def)

lemma endswith_slash: "endswith s ''/'' \<longleftrightarrow> (\<exists>t. s = t @ ''/'')"
  by (simp add: endswith_iff)

lemma endswith_last: "endswith s [c] \<longleftrightarrow> s \<noteq> [] \<and> last s = c"
  unfolding endswith_iff by (metis append_butlast_last_id last_snoc snoc_eq_iff_butlast)

lemma join_name:
  "entry_name n \<Longrightarrow>
   os_path_join a n = (if a = [] \<or> endswith a ''/'' then a @ n else a @ ''/'' @ n)"
  by (simp add: os_path_join_def entry_name_not_abs)

lemma join_name_nonempty: "entry_name n \<Longrightarrow> os_path_join a n \<noteq> []"
  by (auto simp: join_name entry_name_def)

lemma join_name_abs:
  "entry_name n \<Longrightarrow> startswith (os_path_join a n) ''/'' \<longleftrightarrow> startswith a ''/''"
  by (cases a) (auto simp: join_name startswith_slash entry_name_def)

lemma join_assoc_name:
  assumes n: "entry_name n" and c: "cwd \<noteq> []" and p: "\<not> startswith p ''/''"
  shows "os_path_join cwd (os_path_join p n) = os_path_join (os_path_join cwd p) n"
proof -
  have pn: "\<not> startswith (os_path_join p n) ''/''"
    using n p by (simp add: join_name_abs)
  show ?thesis
  proof (cases "p = []")
    case True
    then show ?thesis using n c
      by (auto simp: os_path_join_def entry_name_not_abs startswith_def endswith_def)
  next
    case False
    then have e: "endswith (cwd @ p) ''/'' = endswith p ''/''"
      "endswith (cwd @ ''/'' @ p) ''/'' = endswith p ''/''"
      by (simp_all add: endswith_last)
    show ?thesis using n c p pn False e
      by (auto simp: os_path_join_def entry_name_not_abs)
  qed
qed

lemma norm_comps_join:
  assumes n: "entry_name n" and q: "startswith q ''/''"
  shows "norm_comps (os_path_join q n) = norm_comps q @ [n]"
proof -
  have ns: "CHR ''/'' \<notin> set n" using n by (simp add: entry_name_def)
  from q have qne: "q \<noteq> []" by (auto simp: startswith_slash)
  have i: "(initial_slashes (os_path_join q n) \<noteq> 0) = (initial_slashes q \<noteq> 0)"
    using n q by (simp add: initial_slashes_def join_name_abs)
  show ?thesis
  proof (cases "endswith q ''/''")
    case True
    then obtain q0 where q0: "q = q0 @ ''/''" by (auto simp: endswith_slash)
    have "os_path_join q n = q0 @ CHR ''/'' # n"
      using n True q0 by (simp add: join_name)
    then have s: "split_sep (os_path_join q n) = split_sep q0 @ [n]"
      using ns by (simp add: split_sep_append_slash split_sep_noslash)
    have s0: "split_sep q = split_sep q0 @ [[]]"
      using q0 by (simp add: split_sep_append_slash)
    show ?thesis
      using n unfolding norm_comps_def i s s0
      by (simp add: norm_step_name norm_step_empty)
  next
    case False
    then have "os_path_join q n = q @ CHR ''/'' # n"
      using n qne by (simp add: join_name)
    then have s: "split_sep (os_path_join q n) = split_sep q @ [n]"
      using ns by (simp add: split_sep_append_slash split_sep_noslash)
    show ?thesis
      using n unfolding norm_comps_def i s by (simp add: norm_step_name)
  qed
qed

lemma split_sep_str_join:
  "\<forall>c \<in> set cs. CHR ''/'' \<notin> set c \<Longrightarrow>
   split_sep (str_join ''/'' cs) = (if cs = [] then [[]] else cs)"
proof (induction cs rule: induct_list012)
  case 1
  then show ?case by simp
next
  case (2 x)
  then show ?case by (simp add: split_sep_noslash)
next
  case (3 x y zs)
  then show ?case by (simp add: split_sep_append_slash split_sep_noslash)
qed

lemma split_sep_slashes: "split_sep (replicate k CHR ''/'' @ s) = replicate k [] @ split_sep s"
  by (induction k) auto

lemma parts_normpath_abs:
  assumes q: "startswith q ''/''"
  shows "filter (\<lambda>x. x \<noteq> []) (split_sep (os_path_normpath q)) = norm_comps q"
proof -
  from q have qne: "q \<noteq> []" and k: "initial_slashes q \<noteq> 0"
    by (auto simp: startswith_slash initial_slashes_def)
  have good: "\<forall>c \<in> set (norm_comps q). c \<noteq> [] \<and> CHR ''/'' \<notin> set c"
    using norm_comps_good by blast
  have np: "os_path_normpath q = replicate (initial_slashes q) CHR ''/'' @ str_join ''/'' (norm_comps q)"
    using qne k by (cases "initial_slashes q") (auto simp: os_path_normpath_def Let_def)
  have "filter (\<lambda>x. x \<noteq> []) (split_sep (str_join ''/'' (norm_comps q))) = norm_comps q"
    using good by (auto simp: split_sep_str_join filter_id_conv)
  then show ?thesis
    unfolding np split_sep_slashes by simp
qed

lemma abs_parts_join:
  assumes n: "entry_name n" and cwd: "startswith cwd ''/''"
  shows "abs_parts cwd (os_path_join p n) = abs_parts cwd p @ [n]"
proof -
  from cwd have cne: "cwd \<noteq> []" by (auto simp: startswith_slash)
  define q where "q = (if startswith p ''/'' then p else os_path_join cwd p)"
  have qabs: "startswith q ''/''"
    using cwd cne by (auto simp: q_def os_path_join_def startswith_slash)
  have "(if startswith (os_path_join p n) ''/'' then os_path_join p n
         else os_path_join cwd (os_path_join p n)) = os_path_join q n"
    using n cne by (simp add: q_def join_name_abs join_assoc_name)
  then have "abs_parts cwd (os_path_join p n) = norm_comps (os_path_join q n)"
    using n qabs by (simp add: abs_parts_def os_path_abspath_def parts_normpath_abs join_name_abs)
  also have "\<dots> = norm_comps q @ [n]"
    using n qabs by (rule norm_comps_join)
  also have "norm_comps q = abs_parts cwd p"
    using qabs by (simp add: abs_parts_def os_path_abspath_def q_def parts_normpath_abs)
  finally show ?thesis .
qed

lemma abs_parts_joins:
  assumes ns: "\<forall>n \<in> set ns. entry_name n" and cwd: "startswith cwd ''/''"
  shows "abs_parts cwd (foldl os_path_join p ns) = abs_parts cwd p @ ns"
  using ns
proof (induction ns rule: rev_induct)
  case Nil
  then show ?case by simp
next
  case (snoc n ns)
  then show ?case using cwd by (simp add: abs_parts_join)
qed

lemma commonprefix_append: "commonprefix xs (xs @ ys) = xs"
proof (induction xs)
  case Nil
  then show ?case by (cases ys) auto
next
  case (Cons x xs)
  then show ?case by simp
qed

lemma joins_nonempty:
  "\<forall>n \<in> set ns. entry_name n \<Longrightarrow> ns \<noteq> [] \<Longrightarrow> foldl os_path_join p ns \<noteq> []"
  by (induction ns rule: rev_induct) (auto simp: join_name_nonempty)

lemma str_join_snoc:
  "str_join sep (xs @ [x]) = (if xs = [] then x else str_join sep xs @ sep @ x)"
  by (induction xs rule: induct_list012) auto

lemma str_join_names_last:
  "\<forall>n \<in> set ns. entry_name n \<Longrightarrow> ns \<noteq> [] \<Longrightarrow>
   str_join ''/'' ns \<noteq> [] \<and> last (str_join ''/'' ns) \<noteq> CHR ''/''"
proof (induction ns rule: rev_induct)
  case Nil
  then show ?case by simp
next
  case (snoc n ns)
  from snoc.prems have "n \<noteq> []" and "CHR ''/'' \<notin> set n"
    by (simp_all add: entry_name_def)
  then have "last n \<noteq> CHR ''/''"
    by (metis last_in_set)
  with \<open>n \<noteq> []\<close> show ?case by (simp add: str_join_snoc)
qed

lemma joins_str_join:
  "\<forall>n \<in> set ns. entry_name n \<Longrightarrow> ns \<noteq> [] \<Longrightarrow>
   foldl os_path_join (hd ns) (tl ns) = str_join ''/'' ns"
proof (induction ns rule: rev_induct)
  case Nil
  then show ?case by simp
next
  case (snoc n ns)
  show ?case
  proof (cases "ns = []")
    case True
    then show ?thesis by simp
  next
    case False
    with snoc have ih: "foldl os_path_join (hd ns) (tl ns) = str_join ''/'' ns"
      and l: "str_join ''/'' ns \<noteq> [] \<and> last (str_join ''/'' ns) \<noteq> CHR ''/''"
      using str_join_names_last[of ns] by auto
    from snoc.prems have n: "entry_name n" by simp
    have "foldl os_path_join (hd (ns @ [n])) (tl (ns @ [n]))
            = os_path_join (foldl os_path_join (hd ns) (tl ns)) n"
      using False by simp
    also have "\<dots> = str_join ''/'' ns @ ''/'' @ n"
      using n l ih by (simp add: join_name endswith_last)
    finally show ?thesis using False by (simp add: str_join_snoc)
  qed
qed

lemma relpath_under:
  assumes ns: "\<forall>n \<in> set ns. entry_name n" and ne: "ns \<noteq> []"
    and cwd: "startswith cwd ''/''"
  shows "os_path_relpath cwd (foldl os_path_join folder ns) folder = Inr (str_join ''/'' ns)"
proof -
  have p: "foldl os_path_join folder ns \<noteq> []"
    using ns ne by (rule joins_nonempty)
  have a: "abs_parts cwd (foldl os_path_join folder ns) = abs_parts cwd folder @ ns"
    using ns cwd by (rule abs_parts_joins)
  show ?thesis
    using p ne a joins_str_join[OF ns ne]
    by (simp add: os_path_relpath_def Let_def abs_parts_def[symmetric] commonprefix_append)
qed

lemma rstrip_sep_snoc:
  "s \<noteq> [] \<Longrightarrow> last s \<noteq> CHR ''/'' \<Longrightarrow> rstrip_sep (s @ ''/'') = s"
proof -
  assume "s \<noteq> []" "last s \<noteq> CHR ''/''"
  then have "dropWhile (\<lambda>c. c = CHR ''/'') (rev s) = rev s"
    by (cases "rev s") (auto simp: last_rev hd_rev)
  then show ?thesis by (simp add: rstrip_sep_def)
qed

lemma dirname_str_join:
  assumes ns: "\<forall>n \<in> set (ds @ [f]). entry_name n"
  shows "os_path_dirname (str_join ''/'' (ds @ [f])) = str_join ''/'' ds"
proof (cases "ds = []")
  case True
  from ns have "CHR ''/'' \<notin> set f" by (simp add: entry_name_def)
  then show ?thesis using True
    by (simp add: os_path_dirname_def rfind_notin)
next
  case False
  define S where "S = str_join ''/'' ds"
  from ns have f: "CHR ''/'' \<notin> set f" by (simp add: entry_name_def)
  from ns False have l: "S \<noteq> []" "last S \<noteq> CHR ''/''"
    using str_join_names_last[of ds] by (auto simp: S_def)
  have j: "str_join ''/'' (ds @ [f]) = S @ CHR ''/'' # f"
    using False by (simp add: str_join_snoc S_def)
  have r: "rfind (S @ CHR ''/'' # f) CHR ''/'' = int (length S)"
    using f by (rule rfind_last)
  have n: "nat (int (length S) + 1) = Suc (length S)" by simp
  have h: "take (Suc (length S)) (S @ CHR ''/'' # f) = S @ ''/''" by simp
  have notall: "S @ ''/'' \<noteq> replicate (length (S @ ''/'')) CHR ''/''"
  proof
    assume e: "S @ ''/'' = replicate (length (S @ ''/'')) CHR ''/''"
    have "last S \<in> set (S @ ''/'')" using l by simp
    with e have "last S \<in> set (replicate (length (S @ ''/'')) CHR ''/'')" by metis
    with l show False by simp
  qed
  have "os_path_dirname (S @ CHR ''/'' # f) = rstrip_sep (S @ ''/'')"
    unfolding os_path_dirname_def Let_def r n h using notall by simp
  then show ?thesis
    using l by (simp add: j rstrip_sep_snoc S_def)
qed

section \<open>Settings\<close>

lemma dict_get_settings_dict:
  "dict_get (settings_dict S) ''input_path'' d = input_path S"
  "dict_get (settings_dict S) ''output_path'' d = output_path S"
  "dict_get (settings_dict S) ''ocr_enabled'' d = ocr_enabled S"
  "dict_get (settings_dict S) ''force_ocr'' d = force_ocr S"
  "dict_get (settings_dict S) ''ocr_engine'' d = ocr_engine S"
  "dict_get (settings_dict S) ''table_mode'' d = table_mode S"
  "dict_get (settings_dict S) ''verbosity'' d = verbosity S"
  "dict_get (settings_dict S) ''delete_pdfs'' d = delete_pdfs S"
  by (simp_all add: dict_get_def settings_dict_def)

subsection \<open>Round trip and fallbacks\<close>

text \<open>
  C7. Saving a valid settings value and loading it again returns that value, when the
  write succeeds (a write that fails is logged by \<open>save_settings\<close> and leaves the old
  file or a partial one).
\<close>

theorem settings_round_trip:
  "valid_settings S \<Longrightarrow>
   load_settings documents (fst (save_settings Written S file)) = (Inr S, [])"
  by (simp add: save_settings_def load_settings_def dict_get_settings_dict)

text \<open>The round trip at a sample value, starting without a settings file.\<close>

theorem settings_round_trip_witness:
  "valid_settings sample_settings
   \<and> load_settings ''/home/u/Documents'' (fst (save_settings Written sample_settings Missing))
       = (Inr sample_settings, [])"
proof -
  have v: "valid_settings sample_settings"
    by (simp add: valid_settings_def sample_settings_def)
  show ?thesis
    using v settings_round_trip[OF v, of "''/home/u/Documents''" Missing] by simp
qed

text \<open>
  C8 at a settings file that holds the JSON array \<open>[]\<close>: \<open>load_settings\<close> raises
  \<open>AttributeError\<close> instead of returning the defaults.
\<close>

theorem load_settings_raises:
  "load_settings documents (Present (Doc (JArray []))) =
     (Inl (AttributeError (quote @ ''list'' @ quote @ '' object has no attribute '' @ quote @ ''get'' @ quote)), [])"
  by (simp add: load_settings_def)

text \<open>
  The fallbacks that do work: a missing file, a file that cannot be opened, text that is
  not JSON, and an object without the key.
\<close>

lemma load_settings_fallback:
  "load_settings documents Missing = (Inr (default_settings documents), [])"
  "fst (load_settings documents (Unreadable e)) = Inr (default_settings documents)"
  "fst (load_settings documents (Present (NotJson e))) = Inr (default_settings documents)"
  "load_settings documents (Present (Doc (JObject []))) = (Inr (default_settings documents), [])"
  by (simp_all add: load_settings_def dict_get_def Let_def default_settings_def)

lemma load_settings_missing_key:
  "key \<notin> fst ` set saved \<Longrightarrow> dict_get saved key d = d"
  by (auto simp: dict_get_def split: option.splits dest!: map_of_SomeD intro: rev_image_eqI)

section \<open>The verbosity argument\<close>

text \<open>
  C6 at verbosity level 2: \<open>get_config\<close> stores the text \<open>-v-v\<close>, and the argument list
  ends with that one argument, not with \<open>-v\<close> twice.
\<close>

theorem verbosity_level_two:
  "verbosity (get_config (g\<lparr>verbosity_spinbox := 2\<rparr>)) = ''-v-v''
   \<and> drop 14 (build_command (get_config (g\<lparr>verbosity_spinbox := 2\<rparr>)) pdf_file output_dir)
       = [''-v-v'']"
  by (simp add: get_config_def build_command_def Let_def numeral_eq_Suc)

lemma verbosity_levels:
  "verbosity (get_config (g\<lparr>verbosity_spinbox := 0\<rparr>)) = []"
  "verbosity (get_config (g\<lparr>verbosity_spinbox := 1\<rparr>)) = ''-v''"
  by (simp_all add: get_config_def Let_def)

section \<open>Runs of \<open>doclingGUI.py\<close>\<close>

subsection \<open>One file, and the loop\<close>

lemma runs_append: "runs (xs @ ys) = runs xs @ runs ys"
  by (induction xs rule: runs.induct) auto

lemma removals_append: "removals (xs @ ys) = removals xs @ removals ys"
  by (induction xs rule: removals.induct) auto

lemma runs_set: "(c, res) \<in> set (runs evs) \<longleftrightarrow> Run c res \<in> set evs"
  by (induction evs rule: runs.induct) auto

lemma removals_set: "(p, res) \<in> set (removals evs) \<longleftrightarrow> Remove p res \<in> set evs"
  by (induction evs rule: removals.induct) auto

lemma run_command_cases:
  assumes "run_command sys filename command w = (r, evs, w')"
  obtains (spawn) e where "r = Some (OSError e)" "evs = [Run command (SpawnFailed e)]"
  | (failed) returncode out err where "returncode \<noteq> 0"
      "r = Some (RuntimeError (error_message filename returncode err out))"
      "evs = [Run command (Exited returncode out err),
              Log ERROR (error_message filename returncode err out)]"
  | (ok) out err where "r = None" "runs evs = [(command, Exited 0 out err)]" "removals evs = []"
  using assms
  by (auto simp: run_command_def split: prod.splits proc_result.splits if_splits)

lemma build_command_file:
  "build_command config pdf_file output_dir ! 1 = pdf_file"
  "build_command config pdf_file output_dir ! Suc 0 = pdf_file"
  by (simp_all add: build_command_def)

lemma build_command_output:
  "build_command config pdf_file output_dir ! 12 = ''--output''"
  "build_command config pdf_file output_dir ! 13 = output_dir"
  by (simp_all add: build_command_def)

lemma convert_file_cases:
  assumes "convert_file sys config n_files index pdf_file w = (r, evs, w')"
  obtains (early) e where "r = Some e" "runs evs = []" "removals evs = []"
  | (spawn) output_dir e where "r = Some (OSError e)"
      "output_dir_for (getcwd sys) config pdf_file = Inr output_dir"
      "runs evs = [(build_command config pdf_file output_dir, SpawnFailed e)]" "removals evs = []"
  | (failed) output_dir returncode out err before where "returncode \<noteq> 0"
      "output_dir_for (getcwd sys) config pdf_file = Inr output_dir"
      "r = Some (RuntimeError (error_message (os_path_basename pdf_file) returncode err out))"
      "evs = before @ [Run (build_command config pdf_file output_dir) (Exited returncode out err),
              Log ERROR (error_message (os_path_basename pdf_file) returncode err out)]"
      "runs before = []" "removals before = []"
  | (ok) output_dir out err where "r = None"
      "output_dir_for (getcwd sys) config pdf_file = Inr output_dir"
      "runs evs = [(build_command config pdf_file output_dir, Exited 0 out err)]"
      "removals evs = []"
proof (cases "output_dir_for (getcwd sys) config pdf_file")
  case (Inl e)
  with assms have "r = Some e" "evs = []"
    by (auto simp: convert_file_def)
  then show ?thesis using early by simp
next
  case (Inr output_dir)
  show ?thesis
  proof (cases "os_makedirs sys output_dir True w")
    case (Pair m w1)
    show ?thesis
    proof (cases m)
      case (Some e)
      with assms Inr Pair have "r = Some (OSError e)" "evs = [Makedirs output_dir (Some e)]"
        by (auto simp: convert_file_def)
      then show ?thesis using early by simp
    next
      case None
      obtain r1 evs1 w2 where rc: "run_command sys (os_path_basename pdf_file)
          (build_command config pdf_file output_dir) w1 = (r1, evs1, w2)"
        by (metis prod_cases3)
      define started where "started = [Makedirs output_dir None,
                         Log INFO (''Processing file '' @ str_nat index @ ''/''
                                   @ str_nat n_files @ '': '' @ pdf_file),
                         Log INFO (''Running command: '' @ str_join '' '' (build_command config pdf_file output_dir))]"
      from assms Inr Pair None rc have res: "r = r1" "evs = started @ evs1"
        by (auto simp: convert_file_def Let_def started_def)
      have st: "runs started = []" "removals started = []"
        by (simp_all add: started_def)
      from rc show ?thesis
      proof (cases rule: run_command_cases)
        case (spawn e)
        with res st Inr show ?thesis using that(2)[of e output_dir]
          by (simp add: runs_append removals_append)
      next
        case (failed returncode out err)
        with res st Inr show ?thesis using that(3)[of returncode output_dir err out started]
          by simp
      next
        case (ok out err)
        with res st Inr show ?thesis using that(4)[of output_dir out err]
          by (simp add: runs_append removals_append)
      qed
    qed
  qed
qed

lemma convert_files_Cons_cases:
  assumes "convert_files sys config n index (f # rest) g w = (r, g', evs, w')"
  obtains (stop) e w1 where
      "convert_file sys config n index f w = (Some e, evs, w1)" "r = Some e"
  | (continue) evs1 w1 g1 evs2 where
      "convert_file sys config n index f w = (None, evs1, w1)"
      "convert_files sys config n (Suc index) rest g1 w1 = (r, g', evs2, w')"
      "evs = evs1 @ evs2"
proof (cases "convert_file sys config n index f w")
  case (fields r1 evs1 w1)
  show ?thesis
  proof (cases r1)
    case None
    with assms fields show ?thesis
      using continue by (auto simp: Let_def split: prod.splits)
  next
    case (Some e)
    with assms fields show ?thesis
      using stop by (auto simp: Let_def)
  qed
qed

lemma convert_files_no_removals:
  "convert_files sys config n index files g w = (r, g', evs, w') \<Longrightarrow> removals evs = []"
proof (induction files arbitrary: index g w evs)
  case Nil
  then show ?case by simp
next
  case (Cons f rest)
  from Cons.prems show ?case
  proof (cases rule: convert_files_Cons_cases)
    case (stop e w1)
    from stop(1) show ?thesis by (cases rule: convert_file_cases) (simp_all add: removals_append)
  next
    case (continue evs1 w1 g1 evs2)
    from continue(1) have "removals evs1 = []"
      by (cases rule: convert_file_cases) (simp_all add: removals_append)
    with continue Cons.IH show ?thesis by (simp add: removals_append)
  qed
qed

lemma convert_files_prefix:
  "convert_files sys config n index files g w = (r, g', evs, w') \<Longrightarrow>
   map (\<lambda>(c, res). c ! 1) (runs evs) = take (length (runs evs)) files"
proof (induction files arbitrary: index g w evs)
  case Nil
  then show ?case by simp
next
  case (Cons f rest)
  from Cons.prems show ?case
  proof (cases rule: convert_files_Cons_cases)
    case (stop e w1)
    from stop(1) show ?thesis
      by (cases rule: convert_file_cases) (simp_all add: runs_append build_command_file)
  next
    case (continue evs1 w1 g1 evs2)
    from continue(1) obtain c res where "runs evs1 = [(c, res)]" "c ! 1 = f"
      by (cases rule: convert_file_cases) (simp_all add: build_command_file)
    with continue Cons.IH show ?thesis by (simp add: runs_append)
  qed
qed

lemma convert_files_success:
  "convert_files sys config n index files g w = (None, g', evs, w') \<Longrightarrow>
   length (runs evs) = length files \<and> (\<forall>(c, res) \<in> set (runs evs). succeeded res)"
proof (induction files arbitrary: index g w evs)
  case Nil
  then show ?case by simp
next
  case (Cons f rest)
  from Cons.prems show ?case
  proof (cases rule: convert_files_Cons_cases)
    case (stop e w1)
    then show ?thesis by simp
  next
    case (continue evs1 w1 g1 evs2)
    from continue(1) obtain c out err where "runs evs1 = [(c, Exited 0 out err)]"
      by (cases rule: convert_file_cases) simp_all
    with continue Cons.IH[OF continue(2)] show ?thesis
      by (simp add: runs_append succeeded_def)
  qed
qed


lemma convert_files_commands:
  assumes "convert_files sys config n index files g w = (r, g', evs, w')"
    and "(c, res) \<in> set (runs evs)"
  shows "\<exists>f output_dir. f \<in> set files \<and> output_dir_for (getcwd sys) config f = Inr output_dir
           \<and> c = build_command config f output_dir"
  using assms
proof (induction files arbitrary: index g w evs)
  case Nil
  then show ?case by simp
next
  case (Cons f rest)
  have one: "\<exists>output_dir. output_dir_for (getcwd sys) config f = Inr output_dir
                \<and> c = build_command config f output_dir"
    if "convert_file sys config n index f w = (r1, evs1, w1)" "(c, res) \<in> set (runs evs1)"
    for r1 evs1 w1
    using that by (cases rule: convert_file_cases) (auto simp: runs_append)
  from Cons.prems(1) show ?case
  proof (cases rule: convert_files_Cons_cases)
    case (stop e w1)
    with one Cons.prems(2) show ?thesis by fastforce
  next
    case (continue evs1 w1 g1 evs2)
    with Cons.prems(2) consider "(c, res) \<in> set (runs evs1)" | "(c, res) \<in> set (runs evs2)"
      by (auto simp: runs_append)
    then show ?thesis
    proof cases
      case 1
      with one continue(1) show ?thesis by fastforce
    next
      case 2
      with Cons.IH[OF continue(2)] show ?thesis by auto
    qed
  qed
qed

subsection \<open>The whole conversion\<close>

lemma remove_pdfs_no_runs: "remove_pdfs sys ps w = (evs, w') \<Longrightarrow> runs evs = []"
  by (induction ps arbitrary: w evs) (auto split: prod.splits option.splits)

lemma remove_pdfs_logged:
  "remove_pdfs sys ps w = (evs, w') \<Longrightarrow> Remove p (Some e) \<in> set evs \<Longrightarrow>
   Log ERROR (''Failed to delete PDF '' @ p @ '': '' @ e) \<in> set evs"
  by (induction ps arbitrary: w evs) (auto split: prod.splits option.splits)

lemma process_conversion_cases:
  assumes "process_conversion sys config g w = (r, g', evs, w')"
  obtains (empty) "discovered sys config w = []"
      "r = Some (RuntimeError ''No PDF files found in the input folder'')" "evs = []" "w' = w"
  | (failed) e g1 g2 where "discovered sys config w \<noteq> []"
      "convert_files sys config (length (discovered sys config w)) 1 (discovered sys config w) g1 w
         = (Some e, g2, evs, w')"
      "r = Some e"
  | (finished) g1 g2 evs1 w2 devs where "discovered sys config w \<noteq> []"
      "convert_files sys config (length (discovered sys config w)) 1 (discovered sys config w) g1 w
         = (None, g2, evs1, w2)"
      "r = None" "evs = evs1 @ devs"
      "if delete_pdfs config then delete_processed_pdfs sys (input_path config) w2 = (devs, w')
       else devs = []"
proof (cases "discovered sys config w = []")
  case True
  with assms show ?thesis using empty
    by (auto simp: process_conversion_def conversion_body_def discovered_def Let_def)
next
  case False
  define g1 where "g1 = g\<lparr>run_button_enabled := False, run_button_text := ''Converting...'',
    progress_bar_maximum := length (discovered sys config w), progress_bar_value := 0\<rparr>"
  obtain r1 g2 evs1 w2 where cf: "convert_files sys config (length (discovered sys config w)) 1
      (discovered sys config w) g1 w = (r1, g2, evs1, w2)"
    by (metis prod_cases4)
  show ?thesis
  proof (cases r1)
    case (Some e)
    with assms False cf show ?thesis using failed[of g1 e g2]
      by (auto simp: process_conversion_def conversion_body_def discovered_def Let_def g1_def)
  next
    case None
    show ?thesis
    proof (cases "delete_pdfs config")
      case True
      obtain devs w3 where d: "delete_processed_pdfs sys (input_path config) w2 = (devs, w3)"
        by (metis prod.exhaust)
      with assms False cf None True show ?thesis using finished[of g1 g2 evs1 w2 devs]
        by (auto simp: process_conversion_def conversion_body_def discovered_def Let_def g1_def)
    next
      case nd: False
      with assms False cf None show ?thesis using finished[of g1 g2 evs1 w2 "[]"]
        by (auto simp: process_conversion_def conversion_body_def discovered_def Let_def g1_def)
    qed
  qed
qed




text \<open>
  C9. Source files are removed only when the delete flag is set and every discovered
  file was converted with success; a removal that fails is logged and the run still
  succeeds; a run that fails removes nothing.
\<close>

theorem delete_only_after_success:
  assumes "process_conversion sys config g w = (r, g', evs, w')"
  shows "(Remove p outcome \<in> set evs \<longrightarrow>
            delete_pdfs config \<and> r = None
            \<and> map (\<lambda>(c, res). c ! 1) (runs evs) = discovered sys config w
            \<and> (\<forall>(c, res) \<in> set (runs evs). succeeded res))
       \<and> (Remove p (Some e) \<in> set evs \<longrightarrow>
            r = None \<and> Log ERROR (''Failed to delete PDF '' @ p @ '': '' @ e) \<in> set evs)
       \<and> (r \<noteq> None \<longrightarrow> removals evs = [])"
  using assms
proof (cases rule: process_conversion_cases)
  case empty
  then show ?thesis by simp
next
  case (failed e' g1 g2)
  from convert_files_no_removals[OF failed(2)] have "removals evs = []" .
  then show ?thesis
    using removals_set[of _ _ evs] by simp
next
  case (finished g1 g2 evs1 w2 devs)
  have n1: "removals evs1 = []"
    using convert_files_no_removals[OF finished(2)] .
  have s: "length (runs evs1) = length (discovered sys config w)"
      "\<forall>(c, res) \<in> set (runs evs1). succeeded res"
    using convert_files_success[OF finished(2)] by simp_all
  have pre: "map (\<lambda>(c, res). c ! 1) (runs evs1) = discovered sys config w"
    using convert_files_prefix[OF finished(2)] s(1) by simp
  show ?thesis
  proof (cases "delete_pdfs config")
    case True
    with finished(5) have d: "delete_processed_pdfs sys (input_path config) w2 = (devs, w')"
      by simp
    then have rd: "runs devs = []"
      using remove_pdfs_no_runs by (auto simp: delete_processed_pdfs_def)
    have lg: "Remove p (Some e) \<in> set devs \<Longrightarrow>
        Log ERROR (''Failed to delete PDF '' @ p @ '': '' @ e) \<in> set devs"
      using d remove_pdfs_logged by (auto simp: delete_processed_pdfs_def)
    have in_devs: "Remove p x \<in> set devs" if "Remove p x \<in> set evs" for x
      using that n1 finished(4) removals_set[of p x evs1] by auto
    show ?thesis
      using True finished(3,4) rd pre s(2) lg in_devs
      by (auto simp: runs_append)
  next
    case False
    with finished(5) have "devs = []" by simp
    with finished(4) n1 have "removals evs = []" by simp
    then show ?thesis
      using removals_set[of _ _ evs] finished(3) by simp
  qed
qed

text \<open>
  With the delete flag set: a run whose only removal is refused still succeeds and logs
  the refusal; a run whose conversion fails removes nothing.
\<close>

theorem delete_only_after_success_witness:
  "fst (process_conversion nested_system (sample_config\<lparr>delete_pdfs := True\<rparr>) sample_gui ()) = None
   \<and> removals (fst (snd (snd (process_conversion nested_system
                                  (sample_config\<lparr>delete_pdfs := True\<rparr>) sample_gui ()))))
       = [(''/in/sub/a.pdf'', Some ''denied'')]
   \<and> Log ERROR ''Failed to delete PDF /in/sub/a.pdf: denied''
       \<in> set (fst (snd (snd (process_conversion nested_system
                                (sample_config\<lparr>delete_pdfs := True\<rparr>) sample_gui ()))))
   \<and> fst (process_conversion failing_system (sample_config\<lparr>delete_pdfs := True\<rparr>) sample_gui ())
       \<noteq> None
   \<and> removals (fst (snd (snd (process_conversion failing_system
                                  (sample_config\<lparr>delete_pdfs := True\<rparr>) sample_gui ())))) = []"
proof -
  let ?c = "sample_config\<lparr>delete_pdfs := True\<rparr>"
  let ?R = "process_conversion nested_system ?c sample_gui ()"
  let ?Q = "process_conversion failing_system ?c sample_gui ()"
  have e: "?R = (fst ?R, fst (snd ?R), fst (snd (snd ?R)), snd (snd (snd ?R)))"
    by (simp add: prod_eq_iff)
  have q: "?Q = (fst ?Q, fst (snd ?Q), fst (snd (snd ?Q)), snd (snd (snd ?Q)))"
    by (simp add: prod_eq_iff)
  have rm: "removals (fst (snd (snd ?R))) = [(''/in/sub/a.pdf'', Some ''denied'')]"
    by code_simp
  then have h: "Remove ''/in/sub/a.pdf'' (Some ''denied'') \<in> set (fst (snd (snd ?R)))"
    by (simp add: removals_set[symmetric])
  have l: "''Failed to delete PDF '' @ ''/in/sub/a.pdf'' @ '': '' @ ''denied''
             = ''Failed to delete PDF /in/sub/a.pdf: denied''"
    by simp
  have qf: "fst ?Q \<noteq> None" by code_simp
  from delete_only_after_success[OF e, of "''/in/sub/a.pdf''" "Some ''denied''" "''denied''"] h l
  have "fst ?R = None" "Log ERROR ''Failed to delete PDF /in/sub/a.pdf: denied''
       \<in> set (fst (snd (snd ?R)))"
    by simp_all
  moreover from delete_only_after_success[OF q] qf have "removals (fst (snd (snd ?Q))) = []"
    by simp
  ultimately show ?thesis using rm qf by simp
qed

section \<open>The completion path\<close>

lemma process_conversion_button:
  "run_button_enabled (fst (snd (process_conversion sys config g w)))
   \<and> run_button_text (fst (snd (process_conversion sys config g w))) = ''Run Conversion''"
  by (simp add: process_conversion_def split: prod.splits)

lemma process_loop_no_finished:
  "process_loop sys config is_cancelled i files w = (x, evs, w') \<Longrightarrow> Finished \<notin> set evs"
proof (induction files arbitrary: i w x evs w')
  case Nil
  then show ?case by simp
next
  case (Cons f rest)
  then show ?case
    by (auto simp: process_single_file_def Let_def
        split: if_splits prod.splits proc_result.splits option.splits)
qed

lemma count_list_append: "count_list (xs @ ys) a = count_list xs a + count_list ys a"
  by (induction xs) auto

lemma count_list_0: "a \<notin> set xs \<Longrightarrow> count_list xs a = 0"
  by (induction xs) auto

text \<open>
  C10. Whatever happens in a run, the completion path runs exactly once. In \<open>main.py\<close>
  the trace of \<open>run\<close> holds the \<open>finished\<close> signal once, as its last event, and the
  wrapper of \<open>run\<close> adds it once after any body, be its outcome an exception or a
  return, cancelled or not. In \<open>doclingGUI.py\<close> \<open>_process_conversion\<close> always leaves the
  run button enabled with its text \<open>Run Conversion\<close>.
\<close>

theorem completion_exactly_once:
  "count_list (fst (snd (run sys config is_cancelled w))) Finished = 1
   \<and> last (fst (snd (run sys config is_cancelled w))) = Finished
   \<and> count_list (fst (snd (run_protected (body, evs, w)))) Finished = count_list evs Finished + 1
   \<and> last (fst (snd (run_protected (body, evs, w)))) = Finished
   \<and> run_button_enabled (fst (snd (process_conversion gsys gconfig g gw)))
   \<and> run_button_text (fst (snd (process_conversion gsys gconfig g gw))) = ''Run Conversion''"
proof -
  obtain x evs1 w1 where p: "process_files sys config is_cancelled w = (x, evs1, w1)"
    by (metis prod_cases3)
  then have "Finished \<notin> set evs1"
    unfolding process_files_def by (rule process_loop_no_finished)
  then have "count_list evs1 Finished = 0" by (rule count_list_0)
  with p have "count_list (fst (snd (run sys config is_cancelled w))) Finished = 1"
    "last (fst (snd (run sys config is_cancelled w))) = Finished"
    by (simp_all add: run_def run_protected_def count_list_append)
  moreover have "count_list (fst (snd (run_protected (body, evs, w)))) Finished
                  = count_list evs Finished + 1"
    "last (fst (snd (run_protected (body, evs, w)))) = Finished"
    by (cases body; simp add: run_protected_def count_list_append)+
  ultimately show ?thesis
    using process_conversion_button[of gsys gconfig g gw] by simp
qed

section \<open>The output directory\<close>

lemma filenames_wf: "wf_entries es \<Longrightarrow> f \<in> set (filenames es) \<Longrightarrow> entry_name f"
  by (induction es rule: filenames.induct) auto

lemma sub_files_wf:
  "wf_entries es \<Longrightarrow> \<forall>n \<in> set ds0. entry_name n \<Longrightarrow> (ds, f) \<in> set (sub_files ds0 es) \<Longrightarrow>
   \<forall>n \<in> set (ds @ [f]). entry_name n"
proof (induction ds0 es arbitrary: ds f rule: sub_files.induct)
  case (1 ds0)
  then show ?case by simp
next
  case (2 ds0 n es)
  then show ?case by simp
next
  case (3 ds0 n sub es)
  from "3.prems"(3) consider "ds = ds0 @ [n]" "f \<in> set (filenames sub)"
    | "(ds, f) \<in> set (sub_files (ds0 @ [n]) sub)" | "(ds, f) \<in> set (sub_files ds0 es)"
    by auto
  then show ?case
  proof cases
    case 1
    with "3.prems" show ?thesis using filenames_wf[of sub f] by auto
  next
    case 2
    with "3.prems" "3.IH"(1)[of ds f] show ?thesis by auto
  next
    case 3
    with "3.prems" "3.IH"(2)[of ds f] show ?thesis by auto
  qed
qed

lemma tree_files_wf:
  "wf_entries es \<Longrightarrow> (ds, f) \<in> set (tree_files es) \<Longrightarrow> \<forall>n \<in> set (ds @ [f]). entry_name n"
  using sub_files_wf[of es "[]" ds f] filenames_wf[of es f]
  by (auto simp: tree_files_def)

lemma output_dir_for_under:
  assumes ns: "\<forall>n \<in> set (ds @ [f]). entry_name n" and cwd: "startswith cwd ''/''"
  shows "output_dir_for cwd config (foldl os_path_join (input_path config) (ds @ [f]))
           = Inr (os_path_join (output_path config) (str_join ''/'' ds))"
proof -
  have "os_path_relpath cwd (foldl os_path_join (input_path config) (ds @ [f])) (input_path config)
          = Inr (str_join ''/'' (ds @ [f]))"
    using ns cwd by (intro relpath_under) simp_all
  then show ?thesis
    using dirname_str_join[OF ns] by (simp add: output_dir_for_def)
qed

text \<open>
  C2, as the code has it. In \<open>doclingGUI.py\<close> every command started by a run is the
  command of a file of the tree, and the argument after \<open>--output\<close> is the output folder
  joined with the directories that lead from the input folder to that file. In
  \<open>main.py\<close> the argument after \<open>--output\<close> is the output folder itself, for every file.
\<close>

theorem output_directory_argument:
  assumes "scan_tree sys (input_path config) w = Some es"
    and "wf_entries es"
    and "startswith (getcwd sys) ''/''"
    and "process_conversion sys config g w = (r, g', evs, w')"
    and "Run command res \<in> set evs"
  shows "(\<exists>ds f. (ds, f) \<in> set (tree_files es)
            \<and> command ! 1 = foldl os_path_join (input_path config) (ds @ [f])
            \<and> command ! 12 = ''--output''
            \<and> command ! 13 = os_path_join (output_path config) (str_join ''/'' ds))
       \<and> build_docling_command mconfig file_path ! 4 = ''--output''
       \<and> build_docling_command mconfig file_path ! 5 = ProcessingConfig.output_path mconfig"
proof -
  have m: "build_docling_command mconfig file_path ! 4 = ''--output''"
    "build_docling_command mconfig file_path ! 5 = ProcessingConfig.output_path mconfig"
    by (simp_all add: build_docling_command_def)
  have runs_in: "\<exists>ds f. (ds, f) \<in> set (tree_files es)
            \<and> command ! 1 = foldl os_path_join (input_path config) (ds @ [f])
            \<and> command ! 12 = ''--output''
            \<and> command ! 13 = os_path_join (output_path config) (str_join ''/'' ds)"
    if cf: "convert_files sys config n index (discovered sys config w) g1 w1 = (r1, g2, evs1, w2)"
      and "(command, res) \<in> set (runs evs1)" for n index g1 w1 r1 g2 evs1 w2
  proof -
    from convert_files_commands[OF cf that(2)] obtain pdf_file output_dir where
      p: "pdf_file \<in> set (discovered sys config w)"
      and o: "output_dir_for (getcwd sys) config pdf_file = Inr output_dir"
      and c: "command = build_command config pdf_file output_dir"
      by blast
    from p assms(1) obtain ds f where t: "(ds, f) \<in> set (tree_files es)"
      and pf: "pdf_file = foldl os_path_join (input_path config) (ds @ [f])"
      by (auto simp: discovered_def find_pdf_files_eq)
    from tree_files_wf[OF assms(2) t] have "\<forall>n \<in> set (ds @ [f]). entry_name n" .
    from output_dir_for_under[OF this assms(3), of config] o pf
    have "output_dir = os_path_join (output_path config) (str_join ''/'' ds)" by simp
    with t pf c show ?thesis
      by (auto simp: build_command_file build_command_output)
  qed
  have rs: "(command, res) \<in> set (runs evs)"
    using assms(5) by (simp add: runs_set)
  from assms(4) have "\<exists>ds f. (ds, f) \<in> set (tree_files es)
            \<and> command ! 1 = foldl os_path_join (input_path config) (ds @ [f])
            \<and> command ! 12 = ''--output''
            \<and> command ! 13 = os_path_join (output_path config) (str_join ''/'' ds)"
  proof (cases rule: process_conversion_cases)
    case empty
    with assms(5) show ?thesis by simp
  next
    case (failed e g1 g2)
    from runs_in[OF failed(2) rs] show ?thesis .
  next
    case (finished g1 g2 evs1 w2 devs)
    have "runs devs = []"
      using finished(5) remove_pdfs_no_runs
      by (auto simp: delete_processed_pdfs_def split: if_splits)
    with rs finished(4) have "(command, res) \<in> set (runs evs1)"
      by (simp add: runs_append)
    from runs_in[OF finished(2) this] show ?thesis .
  qed
  with m show ?thesis by simp
qed

text \<open>For \<open>sub/a.pdf\<close> under \<open>/in\<close> the tool is told to write to \<open>/out/sub\<close>.\<close>

theorem output_directory_argument_witness:
  "scan_tree nested_system (input_path sample_config) () = Some nested
   \<and> wf_entries nested
   \<and> startswith (getcwd nested_system) ''/''
   \<and> runs (fst (snd (snd (process_conversion nested_system sample_config sample_gui ()))))
       = [(build_command sample_config ''/in/sub/a.pdf'' ''/out/sub'', Exited 0 ''ok'' [])]
   \<and> (\<exists>ds f. (ds, f) \<in> set (tree_files nested)
          \<and> build_command sample_config ''/in/sub/a.pdf'' ''/out/sub'' ! 1
              = foldl os_path_join (input_path sample_config) (ds @ [f])
          \<and> build_command sample_config ''/in/sub/a.pdf'' ''/out/sub'' ! 12 = ''--output''
          \<and> build_command sample_config ''/in/sub/a.pdf'' ''/out/sub'' ! 13
              = os_path_join (output_path sample_config) (str_join ''/'' ds))
   \<and> tree_files nested = [([''sub''], ''a.pdf'')]
   \<and> os_path_join (output_path sample_config) (str_join ''/'' [''sub'']) = ''/out/sub''"
proof -
  let ?R = "process_conversion nested_system sample_config sample_gui ()"
  let ?C = "build_command sample_config ''/in/sub/a.pdf'' ''/out/sub''"
  have e: "?R = (fst ?R, fst (snd ?R), fst (snd (snd ?R)), snd (snd (snd ?R)))"
    by (simp add: prod_eq_iff)
  have s: "scan_tree nested_system (input_path sample_config) () = Some nested"
    by code_simp
  have wf: "wf_entries nested"
    by code_simp
  have cwd: "startswith (getcwd nested_system) ''/''"
    by code_simp
  have evs: "runs (fst (snd (snd ?R))) = [(?C, Exited 0 ''ok'' [])]"
    by code_simp
  have h: "Run ?C (Exited 0 ''ok'' []) \<in> set (fst (snd (snd ?R)))"
    using evs by (simp add: runs_set[symmetric])
  have t: "tree_files nested = [([''sub''], ''a.pdf'')]"
    by code_simp
  have j: "os_path_join (output_path sample_config) (str_join ''/'' [''sub'']) = ''/out/sub''"
    by code_simp
  from output_directory_argument[OF s wf cwd e h] s wf cwd evs t j
  show ?thesis by simp
qed

text \<open>
  C2 as stated fails on \<open>main.py\<close>: for \<open>sub/a.pdf\<close> under \<open>/in\<close> the tool is told to
  write to \<open>/out\<close>, the top-level output folder.
\<close>

theorem output_argument_main_counterexample:
  "build_docling_command sample_processing_config (below (path_of ''/in'') [''sub'', ''a.pdf''])
     = [''docling'', ''/in/sub/a.pdf'', ''--to'', ''md'', ''--output'', ''/out'',
        ''--table-mode'', ''fast'', ''--ocr-engine'', ''easyocr'', ''--verbose'']"
  by code_simp

section \<open>Cancellation in \<open>main.py\<close>\<close>

lemma process_single_file_runs:
  "process_single_file sys config f w = (r, evs, w') \<Longrightarrow>
   \<exists>res. runs evs = [(build_docling_command config f, res)]"
  by (auto simp: process_single_file_def Let_def split: prod.splits proc_result.splits if_splits)

lemma process_loop_cancel:
  assumes "k < length files" and "\<forall>j<k. \<not> is_cancelled (i + j)" and "is_cancelled (i + k)"
  shows "\<exists>evs w'. process_loop sys config is_cancelled i files w
                     = (Cancelled, evs @ [Log INFO ''Processing cancelled by user''], w')
           \<and> map fst (runs evs) = map (build_docling_command config) (take k files)"
  using assms
proof (induction k arbitrary: i files w)
  case 0
  then obtain f rest where "files = f # rest" by (cases files) auto
  with 0 show ?case by simp
next
  case (Suc k)
  then obtain f rest where fs: "files = f # rest" by (cases files) auto
  from Suc.prems(2) have nc: "\<not> is_cancelled i" by force
  obtain r evs1 w1 where p: "process_single_file sys config f w = (r, evs1, w1)"
    by (metis prod_cases3)
  from process_single_file_runs[OF p]
  obtain res where r1: "runs evs1 = [(build_docling_command config f, res)]"
    by auto
  have "\<exists>evs w'. process_loop sys config is_cancelled (Suc i) rest w1
                     = (Cancelled, evs @ [Log INFO ''Processing cancelled by user''], w')
           \<and> map fst (runs evs) = map (build_docling_command config) (take k rest)"
  proof (rule Suc.IH)
    show "k < length rest" using Suc.prems(1) fs by simp
    show "\<forall>j<k. \<not> is_cancelled (Suc i + j)"
      using Suc.prems(2) by (metis Suc_less_eq add_Suc_shift)
    show "is_cancelled (Suc i + k)" using Suc.prems(3) by simp
  qed
  then obtain evs2 w2 where l: "process_loop sys config is_cancelled (Suc i) rest w1
                     = (Cancelled, evs2 @ [Log INFO ''Processing cancelled by user''], w2)"
    and m: "map fst (runs evs2) = map (build_docling_command config) (take k rest)"
    by blast
  define ev where "ev = Progress (''Processing '' @ path_str f) # evs1
                   @ (case r of
                        None \<Rightarrow> []
                      | Some e \<Rightarrow>
                          [Log ERROR (''Error processing '' @ path_str f @ '': '' @ exn_str e),
                           Error (''Failed to process '' @ path_name f @ '': '' @ exn_str e)])
                   @ evs2"
  have "process_loop sys config is_cancelled i files w
          = (Cancelled, ev @ [Log INFO ''Processing cancelled by user''], w2)"
    using fs nc p l by (simp add: ev_def)
  moreover have "map fst (runs ev) = map (build_docling_command config) (take (Suc k) files)"
    using fs r1 m by (cases r) (simp_all add: ev_def runs_append)
  ultimately show ?case by blast
qed

text \<open>
  C4. In \<open>main.py\<close>, when the flag is first seen set at the top of iteration \<open>k\<close>, that is
  when cancellation is requested after \<open>k\<close> files are done and before the next one
  starts, the external tool has been run on the first \<open>k\<close> discovered files and on no
  other, and the run ends in \<open>Cancelled\<close>: the worker logs the cancellation and emits
  \<open>finished\<close>.
\<close>

theorem cancel_between_files:
  assumes "k < length (files_to_process sys config w)"
    and "\<forall>i<k. \<not> is_cancelled i" and "is_cancelled k"
  shows "\<exists>evs w'. run sys config is_cancelled w
                     = (Cancelled, evs @ [Log INFO ''Processing cancelled by user'', Finished], w')
           \<and> map fst (runs evs)
               = map (build_docling_command config) (take k (files_to_process sys config w))"
proof -
  from process_loop_cancel[of k "files_to_process sys config w" is_cancelled 0 sys config w] assms
  obtain evs w' where "process_files sys config is_cancelled w
                     = (Cancelled, evs @ [Log INFO ''Processing cancelled by user''], w')"
    and m: "map fst (runs evs)
               = map (build_docling_command config) (take k (files_to_process sys config w))"
    by (auto simp: process_files_def)
  then have "run sys config is_cancelled w
               = (Cancelled, evs @ [Log INFO ''Processing cancelled by user'', Finished], w')"
    by (simp add: run_def run_protected_def)
  with m show ?thesis by blast
qed

text \<open>Three files, cancellation seen at the second check: only \<open>a.pdf\<close> is converted.\<close>

theorem cancel_between_files_witness:
  "1 < length (files_to_process three_system sample_processing_config ())
   \<and> \<not> (1::nat) \<le> 0
   \<and> (1::nat) \<le> 1
   \<and> fst (run three_system sample_processing_config (\<lambda>i. 1 \<le> i) ()) = Cancelled
   \<and> map fst (runs (fst (snd (run three_system sample_processing_config (\<lambda>i. 1 \<le> i) ()))))
       = [build_docling_command sample_processing_config (below (path_of ''/in'') [''a.pdf''])]
   \<and> map path_str (files_to_process three_system sample_processing_config ())
       = [''/in/a.pdf'', ''/in/b.docx'', ''/in/c.md'']"
proof -
  let ?F = "files_to_process three_system sample_processing_config ()"
  have f: "?F = [below (path_of ''/in'') [''a.pdf''], below (path_of ''/in'') [''b.docx''],
                 below (path_of ''/in'') [''c.md'']]"
    by code_simp
  have h1: "1 < length ?F" using f by simp
  have h2: "\<forall>i<1. \<not> (1::nat) \<le> i" by simp
  have h3: "(1::nat) \<le> 1" by simp
  have p: "map path_str ?F = [''/in/a.pdf'', ''/in/b.docx'', ''/in/c.md'']"
    unfolding f by code_simp
  from cancel_between_files[of 1 three_system sample_processing_config "()" "\<lambda>i. 1 \<le> i", OF h1 h2 h3]
  obtain evs w' where
    r: "run three_system sample_processing_config (\<lambda>i. 1 \<le> i) ()
          = (Cancelled, evs @ [Log INFO ''Processing cancelled by user'', Finished], w')"
    and m: "map fst (runs evs) = map (build_docling_command sample_processing_config) (take 1 ?F)"
    by blast
  from r have "fst (run three_system sample_processing_config (\<lambda>i. 1 \<le> i) ()) = Cancelled"
    "runs (fst (snd (run three_system sample_processing_config (\<lambda>i. 1 \<le> i) ()))) = runs evs"
    by (simp_all add: runs_append)
  with m f h1 h2 h3 p show ?thesis by simp
qed

section \<open>A run that discovers nothing\<close>

text \<open>
  What \<open>run_conversion\<close> shows when \<open>_process_conversion\<close> raises: an error dialog with
  the text of the exception, and no success dialog.
\<close>

lemma run_conversion_reports_failure:
  assumes "validate_paths sys g w = (None, evs0, w1)"
    and "process_conversion sys (get_config g) g w1 = (Some e, g1, evs1, w2)"
  shows "run_conversion sys g w =
           (g1,
            evs0 @ evs1 @ [Log ERROR (''Conversion failed: '' @ exn_str e),
                           MessageBox Critical ''Error'' (''Conversion failed:'' @ nl @ exn_str e)],
            w2)"
  using assms by (simp add: run_conversion_def)

text \<open>
  C5, as the code has it. In \<open>doclingGUI.py\<close> a run that discovers no file raises
  \<open>RuntimeError\<close> with the text \<open>No PDF files found in the input folder\<close> before any
  directory is made or process started, and leaves the labels and the progress bar as
  they were. In \<open>main.py\<close> such a run returns normally: the only signal is \<open>finished\<close>.
\<close>

theorem empty_discovery:
  "(discovered sys config w = [] \<longrightarrow>
      process_conversion sys config g w =
        (Some (RuntimeError ''No PDF files found in the input folder''),
         g\<lparr>run_button_enabled := True, run_button_text := ''Run Conversion''\<rparr>, [], w))
   \<and> (files_to_process msys mconfig mw = [] \<longrightarrow>
      run msys mconfig is_cancelled mw = (Completed, [Finished], mw))"
  by (simp add: process_conversion_def conversion_body_def discovered_def Let_def
      run_def run_protected_def process_files_def)

text \<open>Both front-ends on an empty input folder.\<close>

theorem empty_discovery_witness:
  "discovered empty_system sample_config () = []
   \<and> fst (process_conversion empty_system sample_config sample_gui ())
       = Some (RuntimeError ''No PDF files found in the input folder'')
   \<and> fst (snd (snd (process_conversion empty_system sample_config sample_gui ()))) = []
   \<and> files_to_process empty_system sample_processing_config () = []
   \<and> fst (run empty_system sample_processing_config (\<lambda>i. False) ()) = Completed"
proof -
  have d: "discovered empty_system sample_config () = []" by code_simp
  have f: "files_to_process empty_system sample_processing_config () = []" by code_simp
  from empty_discovery[of empty_system sample_config "()" sample_gui
      empty_system sample_processing_config "()" "\<lambda>i. False"] d f
  show ?thesis by simp
qed

text \<open>
  C5 as stated fails on \<open>main.py\<close>: over an empty input folder the worker reports no
  error; it emits \<open>finished\<close> and nothing else.
\<close>

theorem empty_discovery_main_counterexample:
  "files_to_process empty_system sample_processing_config () = []
   \<and> run empty_system sample_processing_config (\<lambda>i. False) () = (Completed, [Finished], ())"
  by code_simp

end
